theory Spec2Isabelle
  imports Main "HOL-Library.Word"
begin

unbundle bit_operations_syntax

section \<open>JavaScript values, strings and objects\<close>

text \<open>
  A JavaScript string is a sequence of 16-bit code units. Property names and string
  literals of the source are written as HOL strings and converted with \<open>js\<close>.
\<close>

type_synonym jsstring = "16 word list"

definition js :: "string \<Rightarrow> jsstring" where
  "js s = map of_char s"

text \<open>
  The primitive values a settings field or a message field can hold. Numbers are the
  integral ones only; objects and arrays are not values of any field the functions
  below read.
\<close>

datatype jsval = JUndefined | JNull | JBool bool | JNum int | JStr jsstring

text \<open>Truthiness, as used by \<open>!x\<close>, \<open>x || y\<close>, \<open>if (x)\<close> and \<open>Boolean(x)\<close>.\<close>

fun truthy :: "jsval \<Rightarrow> bool" where
  "truthy JUndefined = False"
| "truthy JNull = False"
| "truthy (JBool b) = b"
| "truthy (JNum n) = (n \<noteq> 0)"
| "truthy (JStr s) = (s \<noteq> [])"

definition Boolean :: "jsval \<Rightarrow> jsval" where
  "Boolean v = JBool (truthy v)"

text \<open>The exceptions that the modelled code can raise.\<close>

datatype exn = TypeError | InvalidCharacterError

definition js_or :: "jsval \<Rightarrow> jsval \<Rightarrow> jsval" where
  "js_or a b = (if truthy a then a else b)"

text \<open>
  A plain object is a finite map from property names to values; reading a property
  that is absent gives \<open>undefined\<close>. The spread \<open>{...a, ...b}\<close> is \<open>a ++ b\<close>.
\<close>

type_synonym jsobj = "string \<rightharpoonup> jsval"

definition get :: "jsobj \<Rightarrow> string \<Rightarrow> jsval" where
  "get obj k = (case obj k of None \<Rightarrow> JUndefined | Some v \<Rightarrow> v)"

text \<open>
  \<open>String.prototype.startsWith\<close> and \<open>toLowerCase\<close>. The source applies
  \<open>toLowerCase\<close> only to compare against the ASCII literals \<open>javascript:\<close>,
  \<open>mailto:\<close>, \<open>tel:\<close>, \<open>#\<close> and \<open>a\<close>; no code unit outside \<open>A\<close>--\<open>Z\<close>
  lower-cases to a letter of these literals in a way that completes one of them, so the
  mapping of the other code units is left as the identity.
\<close>

fun startsWith :: "jsstring \<Rightarrow> jsstring \<Rightarrow> bool" where
  "startsWith s [] = True"
| "startsWith [] (p # ps) = False"
| "startsWith (c # cs) (p # ps) = (c = p \<and> startsWith cs ps)"

definition lower_unit :: "16 word \<Rightarrow> 16 word" where
  "lower_unit c = (if 0x41 \<le> c \<and> c \<le> 0x5A then c + 0x20 else c)"

definition toLowerCase :: "jsstring \<Rightarrow> jsstring" where
  "toLowerCase s = map lower_unit s"

section \<open>The page: URL parser and DOM\<close>

text \<open>
  The \<open>URL\<close> constructor is the browser's; it is a parameter of the model. It takes the
  input and the optional base and either throws (\<open>None\<close>) or yields an object of which
  the source reads \<open>href\<close>, \<open>protocol\<close> and \<open>origin\<close>.
\<close>

record url =
  url_href :: jsstring
  protocol :: jsstring
  origin :: jsstring

record page =
  URL_ctor :: "jsstring \<Rightarrow> jsstring option \<Rightarrow> url option"
  baseURI :: jsstring
  location_href :: jsstring

text \<open>
  The value of the \<open>href\<close> property of a node. On an HTML anchor it is a string, the
  resolved URL. On any other element whose tag is \<open>a\<close> it is not a string: an
  \<open>SVGAnimatedString\<close> object on an SVG anchor, \<open>undefined\<close> elsewhere. Such a value
  has no method \<open>toLowerCase\<close>; \<open>HrefOther\<close> carries the string it converts to where a
  string is expected.
\<close>

datatype href_value = HrefString jsstring | HrefOther jsstring

fun href_toString :: "href_value \<Rightarrow> jsstring" where
  "href_toString (HrefString s) = s"
| "href_toString (HrefOther s) = s"

text \<open>
  The DOM as a store over node identifiers: the parent pointer, the tag name (absent
  on nodes that are not elements), the attributes and the \<open>href\<close> property.
\<close>

record 'n dom =
  parentNode :: "'n \<Rightarrow> 'n option"
  tagName :: "'n \<Rightarrow> jsstring option"
  attributes :: "'n \<Rightarrow> string \<rightharpoonup> jsstring"
  href :: "'n \<Rightarrow> href_value"

definition hasAttribute :: "'n dom \<Rightarrow> 'n \<Rightarrow> string \<Rightarrow> bool" where
  "hasAttribute D n k = (attributes D n k \<noteq> None)"

section \<open>Content script: the capture predicate\<close>

text \<open>
  \<open>ProxlyContentScript.shouldCaptureLink\<close>; the universal content script and the Safari
  content script have the same body. \<open>settings\<close> is \<open>this.settings\<close>. The call
  \<open>anchor.href.toLowerCase()\<close> throws a \<open>TypeError\<close> when \<open>anchor.href\<close> is not a
  string; nothing in the function catches it.
\<close>

definition shouldCaptureLink :: "page \<Rightarrow> 'n dom \<Rightarrow> jsobj \<Rightarrow> 'n \<Rightarrow> exn + bool" where
  "shouldCaptureLink P D settings anchor =
    (if \<not> hasAttribute D anchor ''href'' then Inr False
     else
       (case href D anchor of
          HrefOther s \<Rightarrow> Inl TypeError
        | HrefString hs \<Rightarrow>
            (let h = toLowerCase hs in
             if startsWith h (js ''javascript:'') \<or> startsWith h (js ''mailto:'')
                \<or> startsWith h (js ''tel:'') then Inr False
             else if startsWith h (js ''#'') then Inr False
             else if hasAttribute D anchor ''download'' then Inr False
             else if \<not> truthy (get settings ''enabled'') then Inr False
             else if get settings ''linkMode'' = JStr (js ''all'') then
               (case URL_ctor P hs (Some (baseURI P)) of
                  None \<Rightarrow> Inr False
                | Some linkUrl \<Rightarrow>
                    (case URL_ctor P (location_href P) None of
                       None \<Rightarrow> Inr False
                     | Some currentUrl \<Rightarrow> Inr (origin linkUrl \<noteq> origin currentUrl)))
             else if get settings ''linkMode'' = JStr (js ''context'') then Inr False
             else Inr False)))"

text \<open>\<open>isValidUrl\<close>, the same in the content scripts and the background scripts.\<close>

definition isValidUrl :: "page \<Rightarrow> jsstring \<Rightarrow> bool" where
  "isValidUrl P urlString =
    (case URL_ctor P urlString None of
       None \<Rightarrow> False
     | Some u \<Rightarrow> protocol u \<in> set [js ''http:'', js ''https:''])"

section \<open>Content script: resolving the clicked element to an anchor\<close>

text \<open>
  \<open>ProxlyContentScript.findLinkElement\<close>: the loop
  \<open>while (current && current.parentNode && depth < maxDepth)\<close>. The parent pointer is
  an arbitrary function, so the recursion is justified by the depth counter alone.
\<close>

definition maxDepth :: nat where
  "maxDepth = 5"

definition is_anchor_tag :: "'n dom \<Rightarrow> 'n \<Rightarrow> bool" where
  "is_anchor_tag D c =
    (case tagName D c of None \<Rightarrow> False | Some t \<Rightarrow> t \<noteq> [] \<and> toLowerCase t = js ''a'')"

function findLink_loop :: "'n dom \<Rightarrow> 'n option \<Rightarrow> nat \<Rightarrow> 'n option" where
  "findLink_loop D current depth =
    (case current of
       None \<Rightarrow> None
     | Some c \<Rightarrow>
         if parentNode D c \<noteq> None \<and> depth < maxDepth then
           (if is_anchor_tag D c then Some c
            else findLink_loop D (parentNode D c) (depth + 1))
         else None)"
  by pat_completeness auto
termination
  by (relation "measure (\<lambda>(D, c, d). maxDepth - d)") auto

declare findLink_loop.simps [simp del]

definition findLinkElement :: "'n dom \<Rightarrow> 'n \<Rightarrow> 'n option" where
  "findLinkElement D element = findLink_loop D (Some element) 0"

text \<open>The ancestor of an element \<open>i\<close> levels up (level 0 is the element itself).\<close>

fun nth_ancestor :: "'n dom \<Rightarrow> 'n \<Rightarrow> nat \<Rightarrow> 'n option" where
  "nth_ancestor D e 0 = Some e"
| "nth_ancestor D e (Suc i) =
    (case parentNode D e of None \<Rightarrow> None | Some p \<Rightarrow> nth_ancestor D p i)"

section \<open>Base64 and \<open>btoa\<close>\<close>

text \<open>
  \<open>btoa\<close> is the browser's: it throws \<open>InvalidCharacterError\<close> when a code unit of
  its argument exceeds \<open>0xFF\<close>, and otherwise encodes the code units, taken as bytes,
  in the standard base64 alphabet with \<open>=\<close> padding.
\<close>

type_synonym byte = "8 word"

definition b64_alphabet :: jsstring where
  "b64_alphabet = js ''ABCDEFGHIJKLMNOPQRSTUVWXYZabcdefghijklmnopqrstuvwxyz0123456789+/''"

definition b64_char :: "nat \<Rightarrow> 16 word" where
  "b64_char n = b64_alphabet ! n"

definition b64_pad :: "16 word" where
  "b64_pad = 0x3D"

fun base64_encode :: "byte list \<Rightarrow> jsstring" where
  "base64_encode [] = []"
| "base64_encode [a] =
    (let x = unat a in
     [b64_char (x div 4), b64_char ((x mod 4) * 16), b64_pad, b64_pad])"
| "base64_encode [a, b] =
    (let x = unat a; y = unat b in
     [b64_char (x div 4), b64_char ((x mod 4) * 16 + y div 16),
      b64_char ((y mod 16) * 4), b64_pad])"
| "base64_encode (a # b # c # rest) =
    (let x = unat a; y = unat b; z = unat c in
     [b64_char (x div 4), b64_char ((x mod 4) * 16 + y div 16),
      b64_char ((y mod 16) * 4 + z div 64), b64_char (z mod 64)] @ base64_encode rest)"

definition btoa :: "jsstring \<Rightarrow> exn + jsstring" where
  "btoa s =
    (if list_all (\<lambda>c. c \<le> 0xFF) s then Inr (base64_encode (map ucast s))
     else Inl InvalidCharacterError)"

section \<open>Content script: handling a click\<close>

datatype effect =
    PreventDefault
  | StopPropagation
  | Announce string
  | ShowVisualFeedback
  | PlayCaptureFeedback
  | AnnounceAssertive string
  | ShowErrorIndicator
  | SetLocationHref jsstring

text \<open>\<open>showCaptureFeedback\<close> and \<open>showError\<close>: the effects they emit, in order.\<close>

definition showCaptureFeedback :: "jsobj \<Rightarrow> effect list" where
  "showCaptureFeedback settings =
    [Announce ''accessibilityLinkCapture'']
    @ (if truthy (get settings ''visualFeedback'') then [ShowVisualFeedback] else [])
    @ (if truthy (get settings ''soundFeedback'') then [PlayCaptureFeedback] else [])"

definition showError :: "jsobj \<Rightarrow> string \<Rightarrow> effect list" where
  "showError settings messageKey =
    [AnnounceAssertive messageKey]
    @ (if truthy (get settings ''visualFeedback'') then [ShowErrorIndicator] else [])"

text \<open>
  \<open>forwardToProxlyDirect\<close>: the value assigned to \<open>window.location.href\<close>, or the
  exception of \<open>btoa\<close>, which the function rethrows.
\<close>

definition forwardToProxlyDirect :: "jsstring \<Rightarrow> exn + jsstring" where
  "forwardToProxlyDirect url =
    (case btoa url of
       Inl e \<Rightarrow> Inl e
     | Inr encodedUrl \<Rightarrow> Inr (js ''proxly://open/'' @ encodedUrl))"

definition captureLink :: "jsobj \<Rightarrow> jsstring \<Rightarrow> effect list" where
  "captureLink settings url =
    showCaptureFeedback settings
    @ (case forwardToProxlyDirect url of
         Inr proxlyUrl \<Rightarrow> [SetLocationHref proxlyUrl]
       | Inl e \<Rightarrow> showError settings ''errorProxlyNotRunning'')"

text \<open>
  \<open>handleLinkClick\<close>: the call of \<open>shouldCaptureLink\<close> is outside the \<open>try\<close> block,
  so its exception leaves the handler.
\<close>

definition handleLinkClick :: "page \<Rightarrow> 'n dom \<Rightarrow> jsobj \<Rightarrow> 'n \<Rightarrow> exn + effect list" where
  "handleLinkClick P D settings target =
    (case findLinkElement D target of
       None \<Rightarrow> Inr []
     | Some anchor \<Rightarrow>
         (case shouldCaptureLink P D settings anchor of
            Inl e \<Rightarrow> Inl e
          | Inr capture \<Rightarrow>
              if \<not> capture then Inr []
              else
                Inr (case URL_ctor P (href_toString (href D anchor)) (Some (baseURI P)) of
                       None \<Rightarrow> showError settings ''errorInvalidUrl''
                     | Some u \<Rightarrow>
                         if \<not> isValidUrl P (url_href u) then []
                         else [PreventDefault, StopPropagation]
                              @ captureLink settings (url_href u))))"

definition is_feedback :: "effect \<Rightarrow> bool" where
  "is_feedback e =
    (case e of
       Announce k \<Rightarrow> True | ShowVisualFeedback \<Rightarrow> True | PlayCaptureFeedback \<Rightarrow> True
     | AnnounceAssertive k \<Rightarrow> True | ShowErrorIndicator \<Rightarrow> True | _ \<Rightarrow> False)"

section \<open>Native handler of the Safari extension\<close>

text \<open>
  \<open>SafariWebExtensionHandler.handleForwardUrl\<close> builds the forwarding URI from
  \<open>Data(urlString.utf8).base64EncodedString()\<close>. The text of a string is its sequence
  of code points, an unpaired surrogate code unit standing for U+FFFD, and \<open>utf8\<close> is
  the UTF-8 encoding of that text.
\<close>

definition is_high_surrogate :: "16 word \<Rightarrow> bool" where
  "is_high_surrogate c = (0xD800 \<le> c \<and> c \<le> 0xDBFF)"

definition is_low_surrogate :: "16 word \<Rightarrow> bool" where
  "is_low_surrogate c = (0xDC00 \<le> c \<and> c \<le> 0xDFFF)"

definition scalar_of_unit :: "16 word \<Rightarrow> nat" where
  "scalar_of_unit c = (if is_high_surrogate c \<or> is_low_surrogate c then 0xFFFD else unat c)"

fun codepoints :: "jsstring \<Rightarrow> nat list" where
  "codepoints [] = []"
| "codepoints [c] = [scalar_of_unit c]"
| "codepoints (c # d # r) =
    (if is_high_surrogate c \<and> is_low_surrogate d then
       (0x10000 + (unat c - 0xD800) * 0x400 + (unat d - 0xDC00)) # codepoints r
     else scalar_of_unit c # codepoints (d # r))"

definition utf8_of_codepoint :: "nat \<Rightarrow> byte list" where
  "utf8_of_codepoint n =
    (if n < 0x80 then [of_nat n]
     else if n < 0x800 then [of_nat (0xC0 + n div 0x40), of_nat (0x80 + n mod 0x40)]
     else if n < 0x10000 then
       [of_nat (0xE0 + n div 0x1000), of_nat (0x80 + (n div 0x40) mod 0x40),
        of_nat (0x80 + n mod 0x40)]
     else
       [of_nat (0xF0 + n div 0x40000), of_nat (0x80 + (n div 0x1000) mod 0x40),
        of_nat (0x80 + (n div 0x40) mod 0x40), of_nat (0x80 + n mod 0x40)])"

definition utf8 :: "jsstring \<Rightarrow> byte list" where
  "utf8 s = concat (map utf8_of_codepoint (codepoints s))"

text \<open>
  \<open>handleForwardUrl\<close>. Foundation's \<open>URL(string:)\<close> and \<open>NSWorkspace.shared.open\<close> are
  parameters: the first yields \<open>nil\<close> or a URL, of which the handler reads the scheme
  (absent on a URL without one). The result is the URL handed to \<open>open\<close>, if the
  handler gets that far, and the response it sends.
\<close>

record foundation =
  URL_string :: "jsstring \<Rightarrow> jsstring option option"
  workspace_open :: "jsstring \<Rightarrow> bool"

record forward_result =
  open_request :: "jsstring option"
  response_success :: bool
  response_error :: "string option"

definition handleForwardUrl :: "foundation \<Rightarrow> jsobj \<Rightarrow> forward_result" where
  "handleForwardUrl F messageDict =
    (case get messageDict ''url'' of
       JStr urlString \<Rightarrow>
         (case URL_string F urlString of
            Some (Some scheme) \<Rightarrow>
              if scheme = js ''http'' \<or> scheme = js ''https'' then
                (let encodedUrl = base64_encode (utf8 urlString);
                     proxlyUrlString = js ''proxly://open/'' @ encodedUrl
                 in case URL_string F proxlyUrlString of
                      None \<Rightarrow>
                        \<lparr>open_request = None, response_success = False,
                         response_error = Some ''Failed to create proxly URL''\<rparr>
                    | Some proxlyUrl \<Rightarrow>
                        if workspace_open F proxlyUrlString then
                          \<lparr>open_request = Some proxlyUrlString, response_success = True,
                           response_error = None\<rparr>
                        else
                          \<lparr>open_request = Some proxlyUrlString, response_success = False,
                           response_error = Some ''Failed to open Proxly''\<rparr>)
              else
                \<lparr>open_request = None, response_success = False,
                 response_error = Some ''Invalid URL format''\<rparr>
          | _ \<Rightarrow>
              \<lparr>open_request = None, response_success = False,
               response_error = Some ''Invalid URL format''\<rparr>)
     | _ \<Rightarrow>
         \<lparr>open_request = None, response_success = False,
          response_error = Some ''Missing URL''\<rparr>)"

section \<open>The receiver of the forwarding URI\<close>

text \<open>
  Modelled from the spec: the external application that receives the forwarding URI is
  not part of the repository. It takes the segment after \<open>proxly://open/\<close>, decodes it
  as standard base64 with padding, and reads the bytes as the UTF-8 text of the URL
  (well-formed UTF-8 only: no overlong forms, no surrogates, nothing above U+10FFFF).
\<close>

fun index_of :: "'a \<Rightarrow> 'a list \<Rightarrow> nat option" where
  "index_of x [] = None"
| "index_of x (y # ys) = (if x = y then Some 0 else map_option Suc (index_of x ys))"

definition b64_value :: "16 word \<Rightarrow> nat option" where
  "b64_value c = index_of c b64_alphabet"

fun base64_decode :: "jsstring \<Rightarrow> byte list option" where
  "base64_decode [] = Some []"
| "base64_decode (c1 # c2 # c3 # c4 # rest) =
    (case (b64_value c1, b64_value c2) of
       (Some s1, Some s2) \<Rightarrow>
         (if c3 = b64_pad \<and> c4 = b64_pad \<and> rest = [] then
            Some [of_nat (s1 * 4 + s2 div 16)]
          else
            (case b64_value c3 of
               None \<Rightarrow> None
             | Some s3 \<Rightarrow>
                 (if c4 = b64_pad \<and> rest = [] then
                    Some [of_nat (s1 * 4 + s2 div 16), of_nat ((s2 mod 16) * 16 + s3 div 4)]
                  else
                    (case b64_value c4 of
                       None \<Rightarrow> None
                     | Some s4 \<Rightarrow>
                         map_option
                           (\<lambda>bs. of_nat (s1 * 4 + s2 div 16)
                                  # of_nat ((s2 mod 16) * 16 + s3 div 4)
                                  # of_nat ((s3 mod 4) * 64 + s4) # bs)
                           (base64_decode rest)))))
     | _ \<Rightarrow> None)"
| "base64_decode _ = None"

definition is_continuation :: "byte \<Rightarrow> bool" where
  "is_continuation b = (0x80 \<le> b \<and> b \<le> 0xBF)"

fun utf8_decode :: "byte list \<Rightarrow> nat list option" where
  "utf8_decode [] = Some []"
| "utf8_decode (b0 # bs) =
    (if b0 < 0x80 then map_option ((#) (unat b0)) (utf8_decode bs)
     else if 0xC2 \<le> b0 \<and> b0 \<le> 0xDF then
       (case bs of
          b1 # r \<Rightarrow>
            if is_continuation b1 then
              map_option ((#) ((unat b0 - 0xC0) * 0x40 + (unat b1 - 0x80))) (utf8_decode r)
            else None
        | _ \<Rightarrow> None)
     else if 0xE0 \<le> b0 \<and> b0 \<le> 0xEF then
       (case bs of
          b1 # b2 # r \<Rightarrow>
            (let n = (unat b0 - 0xE0) * 0x1000 + (unat b1 - 0x80) * 0x40 + (unat b2 - 0x80) in
             if is_continuation b1 \<and> is_continuation b2
                \<and> 0x800 \<le> n \<and> \<not> (0xD800 \<le> n \<and> n \<le> 0xDFFF)
             then map_option ((#) n) (utf8_decode r)
             else None)
        | _ \<Rightarrow> None)
     else if 0xF0 \<le> b0 \<and> b0 \<le> 0xF4 then
       (case bs of
          b1 # b2 # b3 # r \<Rightarrow>
            (let n = (unat b0 - 0xF0) * 0x40000 + (unat b1 - 0x80) * 0x1000
                     + (unat b2 - 0x80) * 0x40 + (unat b3 - 0x80) in
             if is_continuation b1 \<and> is_continuation b2 \<and> is_continuation b3
                \<and> 0x10000 \<le> n \<and> n \<le> 0x10FFFF
             then map_option ((#) n) (utf8_decode r)
             else None)
        | _ \<Rightarrow> None)
     else None)"

definition utf16_of_codepoint :: "nat \<Rightarrow> jsstring" where
  "utf16_of_codepoint n =
    (if n < 0x10000 then [of_nat n]
     else [of_nat (0xD800 + (n - 0x10000) div 0x400), of_nat (0xDC00 + (n - 0x10000) mod 0x400)])"

definition receiver_decode :: "jsstring \<Rightarrow> jsstring option" where
  "receiver_decode uri =
    (if startsWith uri (js ''proxly://open/'') then
       (case base64_decode (drop (length (js ''proxly://open/'')) uri) of
          None \<Rightarrow> None
        | Some bytes \<Rightarrow> map_option (\<lambda>cps. concat (map utf16_of_codepoint cps)) (utf8_decode bytes))
     else None)"

section \<open>Settings managers\<close>

text \<open>
  The synchronized storage area is an object; \<open>storage.sync.get(null)\<close> either
  resolves with it or rejects with an error message, and \<open>storage.sync.set(items)\<close>
  overwrites the keys of \<open>items\<close> and leaves every other key as it is.
\<close>

definition storage_set :: "jsobj \<Rightarrow> jsobj \<Rightarrow> jsobj" where
  "storage_set store items = store ++ items"

datatype message = SETTINGS_UPDATED jsobj

text \<open>
  \<open>SettingsManager\<close> of the Chrome extension (\<open>chrome/shared/settings-manager.js\<close>).
  \<open>loadSettings\<close> takes the outcome of \<open>this.getStorage()\<close>: the object it resolves
  with, or the error it rejects with.
\<close>

definition chrome_defaultSettings :: jsobj where
  "chrome_defaultSettings =
    [''linkMode'' \<mapsto> JStr (js ''alt''), ''visualFeedback'' \<mapsto> JBool True,
     ''soundFeedback'' \<mapsto> JBool False, ''version'' \<mapsto> JStr (js ''1.0.0'')]"

definition chrome_loadSettings :: "jsstring + jsobj \<Rightarrow> jsobj" where
  "chrome_loadSettings storage =
    (case storage of
       Inr result \<Rightarrow> chrome_defaultSettings ++ result
     | Inl error \<Rightarrow> chrome_defaultSettings)"

definition chrome_validateSettings :: "jsobj \<Rightarrow> jsobj" where
  "chrome_validateSettings settings =
    (let validated = chrome_defaultSettings;
         validated =
           (if get settings ''linkMode'' \<in> set [JStr (js ''all''), JStr (js ''alt'')]
            then validated(''linkMode'' \<mapsto> get settings ''linkMode'') else validated);
         validated = validated(''visualFeedback'' \<mapsto> Boolean (get settings ''visualFeedback''));
         validated = validated(''soundFeedback'' \<mapsto> Boolean (get settings ''soundFeedback''))
     in validated)"

text \<open>
  \<open>saveSettings\<close>: the first argument is the rejection message of the storage write, if
  it fails. The result is the returned flag, the storage area afterwards and the messages
  sent by \<open>notifySettingsChange\<close>.
\<close>

definition chrome_saveSettings ::
  "jsstring option \<Rightarrow> jsobj \<Rightarrow> jsobj \<Rightarrow> bool \<times> jsobj \<times> message list" where
  "chrome_saveSettings write_error settings store =
    (let validatedSettings = chrome_validateSettings settings in
     case write_error of
       Some error \<Rightarrow> (False, store, [])
     | None \<Rightarrow> (True, storage_set store validatedSettings, [SETTINGS_UPDATED validatedSettings]))"

text \<open>
  \<open>SettingsManager\<close> of the Safari extension. Its \<open>getStorage\<close> and \<open>setStorage\<close>
  choose the \<open>browser\<close> namespace if it is defined, else the \<open>chrome\<close> namespace,
  else \<open>localStorage\<close>, inside a \<open>try\<close> whose \<open>catch\<close> goes to the item
  \<open>proxlySettings\<close> of \<open>localStorage\<close>. A rejection in the \<open>browser\<close> branch is
  awaited inside the \<open>try\<close> and caught; the promise of the \<open>chrome\<close> branch is
  returned without \<open>await\<close>, so its rejection reaches the caller.

  \<open>sync\<close> is the outcome of the read of the synchronized area, \<open>local\<close> the outcome
  of reading and parsing the \<open>localStorage\<close> item (the empty object when there is no
  item, an error when \<open>localStorage\<close> or the parse throws).
\<close>

datatype namespace = BrowserAPI | ChromeAPI | NoAPI

definition safari_defaultSettings :: jsobj where
  "safari_defaultSettings =
    [''linkMode'' \<mapsto> JStr (js ''all''), ''enabled'' \<mapsto> JBool True,
     ''visualFeedback'' \<mapsto> JBool True, ''soundFeedback'' \<mapsto> JBool False,
     ''version'' \<mapsto> JStr (js ''1.0.0'')]"

definition safari_getStorage ::
  "namespace \<Rightarrow> jsstring + jsobj \<Rightarrow> jsstring + jsobj \<Rightarrow> jsstring + jsobj" where
  "safari_getStorage ns sync local =
    (case ns of
       BrowserAPI \<Rightarrow> (case sync of Inr result \<Rightarrow> Inr result | Inl error \<Rightarrow> local)
     | ChromeAPI \<Rightarrow> sync
     | NoAPI \<Rightarrow> local)"

definition safari_loadSettings ::
  "namespace \<Rightarrow> jsstring + jsobj \<Rightarrow> jsstring + jsobj \<Rightarrow> jsobj" where
  "safari_loadSettings ns sync local =
    (case safari_getStorage ns sync local of
       Inr result \<Rightarrow> safari_defaultSettings ++ result
     | Inl error \<Rightarrow> safari_defaultSettings)"

definition safari_validateSettings :: "jsobj \<Rightarrow> jsobj" where
  "safari_validateSettings settings =
    (let validated = safari_defaultSettings;
         validated =
           (if get settings ''linkMode'' \<in> set [JStr (js ''all''), JStr (js ''context'')]
            then validated(''linkMode'' \<mapsto> get settings ''linkMode'') else validated);
         validated = validated(''enabled'' \<mapsto> Boolean (get settings ''enabled''));
         validated = validated(''visualFeedback'' \<mapsto> Boolean (get settings ''visualFeedback''));
         validated = validated(''soundFeedback'' \<mapsto> Boolean (get settings ''soundFeedback''));
         validated =
           (if truthy (get settings ''version'')
            then validated(''version'' \<mapsto> get settings ''version'') else validated)
     in validated)"

text \<open>
  \<open>setStorage\<close>: where the record is written, or the error it rejects with.
  \<open>sync_error\<close> is the rejection of the write to the synchronized area, if it fails,
  \<open>local_error\<close> the exception of \<open>localStorage.setItem\<close>, if it throws.
\<close>

datatype written = ToSync | ToLocal

definition safari_setStorage ::
  "namespace \<Rightarrow> jsstring option \<Rightarrow> jsstring option \<Rightarrow> jsstring + written" where
  "safari_setStorage ns sync_error local_error =
    (case ns of
       BrowserAPI \<Rightarrow>
         (case sync_error of
            None \<Rightarrow> Inr ToSync
          | Some error \<Rightarrow> (case local_error of None \<Rightarrow> Inr ToLocal | Some e \<Rightarrow> Inl e))
     | ChromeAPI \<Rightarrow> (case sync_error of None \<Rightarrow> Inr ToSync | Some error \<Rightarrow> Inl error)
     | NoAPI \<Rightarrow> (case local_error of None \<Rightarrow> Inr ToLocal | Some e \<Rightarrow> Inl e))"

text \<open>
  \<open>notifySettingsChange\<close> sends \<open>SETTINGS_UPDATED\<close> through the namespace that is
  defined and catches a failure of the send.
\<close>

definition safari_notifySettingsChange :: "namespace \<Rightarrow> jsobj \<Rightarrow> message list" where
  "safari_notifySettingsChange ns settings =
    (case ns of NoAPI \<Rightarrow> [] | _ \<Rightarrow> [SETTINGS_UPDATED settings])"

text \<open>
  \<open>saveSettings\<close>: from the record, the synchronized area and the \<open>localStorage\<close> item
  to the returned flag, the synchronized area and the item afterwards, and the messages
  sent.
\<close>

definition safari_saveSettings ::
  "namespace \<Rightarrow> jsstring option \<Rightarrow> jsstring option \<Rightarrow> jsobj \<Rightarrow> jsobj \<Rightarrow> jsobj option
    \<Rightarrow> bool \<times> jsobj \<times> jsobj option \<times> message list" where
  "safari_saveSettings ns sync_error local_error settings store item =
    (let validatedSettings = safari_validateSettings settings in
     case safari_setStorage ns sync_error local_error of
       Inl error \<Rightarrow> (False, store, item, [])
     | Inr ToSync \<Rightarrow>
         (True, storage_set store validatedSettings, item,
          safari_notifySettingsChange ns validatedSettings)
     | Inr ToLocal \<Rightarrow>
         (True, store, Some validatedSettings,
          safari_notifySettingsChange ns validatedSettings))"

section \<open>Background script\<close>

text \<open>
  \<open>ProxlyBackground.loadSettings\<close>, the same in the Firefox and the Safari background
  script: from the outcome of the storage read and \<open>this.settings\<close> to the returned
  record and the new \<open>this.settings\<close>.
\<close>

definition background_loadSettings :: "jsstring + jsobj \<Rightarrow> jsobj \<Rightarrow> jsobj \<times> jsobj" where
  "background_loadSettings storage this_settings =
    (case storage of
       Inr result \<Rightarrow>
         (let settings =
            [''linkMode'' \<mapsto> js_or (get result ''linkMode'') (JStr (js ''all'')),
             ''enabled'' \<mapsto>
               (if get result ''enabled'' \<noteq> JUndefined then get result ''enabled'' else JBool True),
             ''visualFeedback'' \<mapsto>
               (if get result ''visualFeedback'' \<noteq> JUndefined then get result ''visualFeedback''
                else JBool True),
             ''soundFeedback'' \<mapsto> js_or (get result ''soundFeedback'') (JBool False),
             ''version'' \<mapsto> js_or (get result ''version'') (JStr (js ''1.0.0''))]
          in (settings, settings))
     | Inl error \<Rightarrow>
         ([''linkMode'' \<mapsto> JStr (js ''all''), ''enabled'' \<mapsto> JBool True,
           ''visualFeedback'' \<mapsto> JBool True, ''soundFeedback'' \<mapsto> JBool False,
           ''version'' \<mapsto> JStr (js ''1.0.0'')],
          this_settings))"

text \<open>
  \<open>ProxlyContentScript.loadSettings\<close>: from the outcome of the storage read and the
  outcome of the \<open>GET_SETTINGS\<close> request (an exception, or the response, which may be
  absent) to the new \<open>this.settings\<close>.
\<close>

definition content_loadSettings :: "jsstring + jsobj \<Rightarrow> jsstring + jsobj option \<Rightarrow> jsobj" where
  "content_loadSettings storage background =
    (case storage of
       Inr result \<Rightarrow>
         (let settings =
            [''linkMode'' \<mapsto> js_or (get result ''linkMode'') (JStr (js ''all'')),
             ''enabled'' \<mapsto>
               (if get result ''enabled'' \<noteq> JUndefined then get result ''enabled'' else JBool True),
             ''visualFeedback'' \<mapsto>
               (if get result ''visualFeedback'' \<noteq> JUndefined then get result ''visualFeedback''
                else JBool True),
             ''soundFeedback'' \<mapsto> js_or (get result ''soundFeedback'') (JBool False)]
          in case background of
               Inr (Some response) \<Rightarrow>
                 if \<not> truthy (get response ''error'')
                    \<and> (get response ''enabled'' \<noteq> get settings ''enabled''
                       \<or> get response ''linkMode'' \<noteq> get settings ''linkMode'')
                 then response else settings
             | Inr None \<Rightarrow> settings
             | Inl bgError \<Rightarrow> settings)
     | Inl error \<Rightarrow>
         [''linkMode'' \<mapsto> JStr (js ''all''), ''enabled'' \<mapsto> JBool True,
          ''visualFeedback'' \<mapsto> JBool True, ''soundFeedback'' \<mapsto> JBool False])"

text \<open>
  The state the background script works on: its cached \<open>this.settings\<close>, the
  synchronized storage area and the text of the badge set by \<open>updateExtensionIcon\<close>
  (which catches its own errors; the badge is taken to follow the call).
\<close>

record background =
  bg_settings :: jsobj
  sync_storage :: jsobj
  badgeText :: jsstring

definition updateExtensionIcon :: "jsval \<Rightarrow> background \<Rightarrow> background" where
  "updateExtensionIcon enabled b = b\<lparr>badgeText := (if truthy enabled then [] else js ''OFF'')\<rparr>"

text \<open>
  The case \<open>'TOGGLE_EXTENSION'\<close> of \<open>handleRuntimeMessage\<close>, with the enclosing
  \<open>catch\<close>: from the rejection message of the storage write (if it fails), the message
  and the state to the response and the new state.
\<close>

definition firefox_TOGGLE_EXTENSION ::
  "jsstring option \<Rightarrow> jsobj \<Rightarrow> background \<Rightarrow> jsobj \<times> background" where
  "firefox_TOGGLE_EXTENSION write_error message b =
    (let newState = JBool (\<not> truthy (get (bg_settings b) ''enabled''));
         b1 = b\<lparr>bg_settings := (bg_settings b)(''enabled'' \<mapsto> newState)\<rparr>
     in case write_error of
          Some error \<Rightarrow> ([''error'' \<mapsto> JStr error], b1)
        | None \<Rightarrow>
            ([''enabled'' \<mapsto> newState],
             updateExtensionIcon newState
               (b1\<lparr>sync_storage := storage_set (sync_storage b1) [''enabled'' \<mapsto> newState]\<rparr>)))"

definition safari_TOGGLE_EXTENSION ::
  "jsstring option \<Rightarrow> jsobj \<Rightarrow> background \<Rightarrow> jsobj \<times> background" where
  "safari_TOGGLE_EXTENSION write_error message b =
    (let newState =
           (if get message ''enabled'' \<noteq> JUndefined then get message ''enabled''
            else JBool (\<not> truthy (get (bg_settings b) ''enabled'')));
         b1 = b\<lparr>bg_settings := (bg_settings b)(''enabled'' \<mapsto> newState)\<rparr>
     in case write_error of
          Some error \<Rightarrow> ([''error'' \<mapsto> JStr error], b1)
        | None \<Rightarrow>
            ([''enabled'' \<mapsto> newState],
             updateExtensionIcon newState
               (b1\<lparr>sync_storage := storage_set (sync_storage b1) [''enabled'' \<mapsto> newState]\<rparr>)))"

text \<open>
  The storage listener of the content script, \<open>chrome.storage.onChanged\<close> for the
  \<open>sync\<close> area: \<open>changes\<close> maps each changed key to its new value.
\<close>

definition storage_changed_key :: "jsobj \<Rightarrow> string \<Rightarrow> jsobj \<Rightarrow> jsobj" where
  "storage_changed_key changes k settings =
    (case changes k of
       Some newValue \<Rightarrow> if newValue \<noteq> get settings k then settings(k \<mapsto> newValue) else settings
     | None \<Rightarrow> settings)"

definition content_onStorageChanged :: "jsobj \<Rightarrow> jsobj \<Rightarrow> jsobj" where
  "content_onStorageChanged changes settings =
    storage_changed_key changes ''soundFeedback''
      (storage_changed_key changes ''visualFeedback''
        (storage_changed_key changes ''linkMode''
          (storage_changed_key changes ''enabled'' settings)))"

text \<open>
  \<open>forwardToProxly\<close> and \<open>handleContextMenuClick\<close> of the Firefox background script.
  The only effect is the request to navigate the tab; an exception of \<open>btoa\<close> is rethrown
  by \<open>forwardToProxly\<close> and swallowed by the click handler.
\<close>

datatype tab_effect = TabsUpdate nat jsstring

definition forwardToProxly :: "jsstring \<Rightarrow> nat \<Rightarrow> exn + tab_effect list" where
  "forwardToProxly url tab =
    (case btoa url of
       Inl e \<Rightarrow> Inl e
     | Inr encodedUrl \<Rightarrow> Inr [TabsUpdate tab (js ''proxly://open/'' @ encodedUrl)])"

record menu_info =
  menuItemId :: jsstring
  linkUrl :: "jsstring option"

definition handleContextMenuClick :: "page \<Rightarrow> menu_info \<Rightarrow> nat \<Rightarrow> tab_effect list" where
  "handleContextMenuClick P info tab =
    (if menuItemId info \<noteq> js ''proxly-open-url''
        \<or> linkUrl info = None \<or> linkUrl info = Some [] then []
     else
       (case linkUrl info of
          None \<Rightarrow> []
        | Some u \<Rightarrow>
            if \<not> isValidUrl P u then []
            else (case forwardToProxly u tab of Inl e \<Rightarrow> [] | Inr effects \<Rightarrow> effects)))"


section \<open>Fixtures\<close>

text \<open>
  A page at \<open>https://site.test/\<close> whose URL parser knows four URLs, the last of them
  \<open>https://a.io/\<close> followed by the letter U+00E9, which it serialises with the path
  percent-encoded; and a document with one HTML anchor (node 0) inside the body (node 1).
\<close>

definition demo_URL :: "jsstring \<Rightarrow> jsstring option \<Rightarrow> url option" where
  "demo_URL s b =
    (if s = js ''https://other.example/x'' then
       Some \<lparr>url_href = s, protocol = js ''https:'', origin = js ''https://other.example''\<rparr>
     else if s = js ''https://site.test/'' \<or> s = js ''https://site.test/about'' then
       Some \<lparr>url_href = s, protocol = js ''https:'', origin = js ''https://site.test''\<rparr>
     else if s = js ''https://a.io/'' @ [0xE9] then
       Some \<lparr>url_href = js ''https://a.io/%C3%A9'', protocol = js ''https:'',
             origin = js ''https://a.io''\<rparr>
     else None)"

definition demo_page :: page where
  "demo_page = \<lparr>URL_ctor = demo_URL, baseURI = js ''https://site.test/'',
                 location_href = js ''https://site.test/''\<rparr>"

definition demo_dom :: "jsstring \<Rightarrow> nat dom" where
  "demo_dom h =
    \<lparr>parentNode = (\<lambda>n. if n < 2 then Some (Suc n) else None),
     tagName = (\<lambda>n. if n = 0 then Some (js ''A'') else if n = 1 then Some (js ''BODY'') else None),
     attributes = (\<lambda>n. if n = 0 then [''href'' \<mapsto> h] else Map.empty),
     href = (\<lambda>n. if n = 0 then HrefString h else HrefOther (js ''undefined''))\<rparr>"

text \<open>
  The same document with an SVG anchor in place of the HTML one: its tag name is
  \<open>a\<close>, it carries the attribute \<open>href\<close>, and its \<open>href\<close> property is an
  \<open>SVGAnimatedString\<close>.
\<close>

definition svg_dom :: "nat dom" where
  "svg_dom =
    \<lparr>parentNode = (\<lambda>n. if n < 2 then Some (Suc n) else None),
     tagName = (\<lambda>n. if n = 0 then Some (js ''a'') else if n = 1 then Some (js ''svg'') else None),
     attributes = (\<lambda>n. if n = 0 then [''href'' \<mapsto> js ''https://other.example/x''] else Map.empty),
     href = (\<lambda>n. if n = 0 then HrefOther (js ''[object SVGAnimatedString]'')
                  else HrefOther (js ''undefined''))\<rparr>"


definition demo_settings :: "bool \<Rightarrow> string \<Rightarrow> jsobj" where
  "demo_settings e m =
    [''linkMode'' \<mapsto> JStr (js m), ''enabled'' \<mapsto> JBool e,
     ''visualFeedback'' \<mapsto> JBool True, ''soundFeedback'' \<mapsto> JBool False]"

text \<open>
  A document that is one endless chain of \<open>span\<close> elements, node \<open>n + 1\<close> being the
  parent of node \<open>n\<close>, with a single anchor at node \<open>k\<close>.
\<close>

definition chain_dom :: "nat \<Rightarrow> nat dom" where
  "chain_dom k =
    \<lparr>parentNode = (\<lambda>n. Some (Suc n)),
     tagName = (\<lambda>n. if n = k then Some (js ''A'') else Some (js ''SPAN'')),
     attributes = (\<lambda>n. if n = k then [''href'' \<mapsto> js ''https://other.example/x''] else Map.empty),
     href = (\<lambda>n. if n = k then HrefString (js ''https://other.example/x'')
                  else HrefOther (js ''undefined''))\<rparr>"

definition demo_background :: background where
  "demo_background =
    \<lparr>bg_settings = demo_settings True ''all'',
     sync_storage = [''linkMode'' \<mapsto> JStr (js ''all''), ''enabled'' \<mapsto> JBool True],
     badgeText = []\<rparr>"

text \<open>A record with an unrecognised \<open>linkMode\<close> and otherwise valid fields.\<close>

definition bogus_settings :: jsobj where
  "bogus_settings =
    [''linkMode'' \<mapsto> JStr (js ''bogus''), ''enabled'' \<mapsto> JBool False,
     ''visualFeedback'' \<mapsto> JBool False, ''soundFeedback'' \<mapsto> JBool True,
     ''version'' \<mapsto> JStr (js ''2.0.0'')]"

section \<open>Properties of the capture predicate\<close>

lemma startsWith_Cons:
  "startsWith h (p # ps) \<longleftrightarrow> (\<exists>cs. h = p # cs \<and> startsWith cs ps)"
  by (cases h) auto

lemma startsWith_http_not_special:
  assumes "startsWith h (js ''http:'') \<or> startsWith h (js ''https:'')"
  shows "\<not> startsWith h (js ''javascript:'')" "\<not> startsWith h (js ''mailto:'')"
    "\<not> startsWith h (js ''tel:'')" "\<not> startsWith h (js ''#'')"
proof -
  obtain cs where h: "h = 0x68 # cs"
    using assms by (auto simp: js_def startsWith_Cons)
  show "\<not> startsWith h (js ''javascript:'')" by (simp add: h js_def)
  show "\<not> startsWith h (js ''mailto:'')" by (simp add: h js_def)
  show "\<not> startsWith h (js ''tel:'')" by (simp add: h js_def)
  show "\<not> startsWith h (js ''#'')" by (simp add: h js_def)
qed

text \<open>
  What holds of the disabled extension on every node: \<open>shouldCaptureLink\<close> never
  returns true, and it returns false wherever it returns, which it does on every node
  without an \<open>href\<close> attribute and on every node whose \<open>href\<close> property is a string.
\<close>

lemma shouldCaptureLink_disabled:
  assumes "\<not> truthy (get settings ''enabled'')"
  shows "shouldCaptureLink P D settings anchor \<noteq> Inr True"
    and "\<not> hasAttribute D anchor ''href'' \<Longrightarrow> shouldCaptureLink P D settings anchor = Inr False"
    and "href D anchor = HrefString h \<Longrightarrow> shouldCaptureLink P D settings anchor = Inr False"
    and "shouldCaptureLink P D settings anchor = Inl e \<longleftrightarrow>
           hasAttribute D anchor ''href'' \<and> (\<exists>s. href D anchor = HrefOther s) \<and> e = TypeError"
  using assms
  by (auto simp: shouldCaptureLink_def Let_def split: href_value.splits)

lemma svg_dom_facts:
  "findLinkElement svg_dom 0 = Some 0"
  "hasAttribute svg_dom 0 ''href''"
  "href svg_dom 0 = HrefOther (js ''[object SVGAnimatedString]'')"
  by (simp_all add: findLinkElement_def findLink_loop.simps [of _ "Some 0" 0] svg_dom_def
      hasAttribute_def is_anchor_tag_def maxDepth_def toLowerCase_def lower_unit_def js_def)

text \<open>
  C1. The code at an SVG anchor: node 0 of \<open>svg_dom\<close> is an \<open>a\<close> element with an
  \<open>href\<close> attribute, which \<open>findLinkElement\<close> returns for a click on it. With
  \<open>settings.enabled\<close> false, \<open>shouldCaptureLink\<close> does not return false: it throws a
  \<open>TypeError\<close> at \<open>anchor.href.toLowerCase()\<close>, before the test of \<open>enabled\<close>, and the
  exception leaves \<open>handleLinkClick\<close>.
\<close>

theorem C1_disabled_svg_anchor_throws:
  "findLinkElement svg_dom 0 = Some 0
   \<and> hasAttribute svg_dom 0 ''href''
   \<and> get (demo_settings False ''all'') ''enabled'' = JBool False
   \<and> shouldCaptureLink demo_page svg_dom (demo_settings False ''all'') 0 = Inl TypeError
   \<and> handleLinkClick demo_page svg_dom (demo_settings False ''all'') 0 = Inl TypeError"
proof -
  have s: "shouldCaptureLink demo_page svg_dom (demo_settings False ''all'') 0 = Inl TypeError"
    by (simp add: shouldCaptureLink_def svg_dom_facts)
  then have "handleLinkClick demo_page svg_dom (demo_settings False ''all'') 0 = Inl TypeError"
    by (simp add: handleLinkClick_def svg_dom_facts)
  with s show ?thesis
    by (simp add: svg_dom_facts) (simp add: get_def demo_settings_def)
qed

lemma get_agree:
  assumes "\<forall>k. k \<noteq> ''visualFeedback'' \<and> k \<noteq> ''soundFeedback'' \<longrightarrow> s1 k = s2 k"
  shows "get s1 ''enabled'' = get s2 ''enabled''" "get s1 ''linkMode'' = get s2 ''linkMode''"
  using assms by (simp_all add: get_def)

lemma shouldCaptureLink_cong:
  assumes "get s1 ''enabled'' = get s2 ''enabled''" "get s1 ''linkMode'' = get s2 ''linkMode''"
  shows "shouldCaptureLink P D s1 a = shouldCaptureLink P D s2 a"
  using assms by (simp add: shouldCaptureLink_def split: href_value.split)

lemma is_feedback_simps [simp]:
  "\<not> is_feedback PreventDefault" "\<not> is_feedback StopPropagation"
  "\<not> is_feedback (SetLocationHref u)" "is_feedback (Announce k)"
  "is_feedback ShowVisualFeedback" "is_feedback PlayCaptureFeedback"
  "is_feedback (AnnounceAssertive k)" "is_feedback ShowErrorIndicator"
  by (simp_all add: is_feedback_def)

lemma showCaptureFeedback_feedback:
  "filter (\<lambda>e. \<not> is_feedback e) (showCaptureFeedback s) = []"
  by (simp add: showCaptureFeedback_def)

lemma showError_feedback:
  "filter (\<lambda>e. \<not> is_feedback e) (showError s k) = []"
  by (simp add: showError_def)

lemma captureLink_decision:
  "filter (\<lambda>e. \<not> is_feedback e) (captureLink s url) =
    (case forwardToProxlyDirect url of Inr p \<Rightarrow> [SetLocationHref p] | Inl e \<Rightarrow> [])"
  by (simp add: captureLink_def showCaptureFeedback_feedback showError_feedback
      split: sum.split)

lemma handleLinkClick_decision:
  "map_sum id (filter (\<lambda>e. \<not> is_feedback e)) (handleLinkClick P D s t) =
    (case findLinkElement D t of
       None \<Rightarrow> Inr []
     | Some anchor \<Rightarrow>
         (case shouldCaptureLink P D s anchor of
            Inl e \<Rightarrow> Inl e
          | Inr capture \<Rightarrow>
              if \<not> capture then Inr []
              else
                Inr (case URL_ctor P (href_toString (href D anchor)) (Some (baseURI P)) of
                       None \<Rightarrow> []
                     | Some u \<Rightarrow>
                         if \<not> isValidUrl P (url_href u) then []
                         else [PreventDefault, StopPropagation]
                           @ (case forwardToProxlyDirect (url_href u) of
                                Inr p \<Rightarrow> [SetLocationHref p] | Inl e \<Rightarrow> []))))"
  by (simp add: handleLinkClick_def captureLink_decision showError_feedback
      split: option.split sum.split)


lemma demo_facts:
  "hasAttribute (demo_dom h) 0 ''href''"
  "\<not> hasAttribute (demo_dom h) 0 ''download''"
  "href (demo_dom h) 0 = HrefString h"
  "get (demo_settings e m) ''enabled'' = JBool e"
  "get (demo_settings e m) ''linkMode'' = JStr (js m)"
  "baseURI demo_page = js ''https://site.test/''"
  "location_href demo_page = js ''https://site.test/''"
  "URL_ctor demo_page = demo_URL"
  by (simp_all add: hasAttribute_def demo_dom_def get_def demo_settings_def demo_page_def)

lemma demo_URL_other:
  "demo_URL (js ''https://other.example/x'') b =
    Some \<lparr>url_href = js ''https://other.example/x'', protocol = js ''https:'',
          origin = js ''https://other.example''\<rparr>"
  by (simp add: demo_URL_def)

lemma demo_URL_site:
  "demo_URL (js ''https://site.test/'') b =
    Some \<lparr>url_href = js ''https://site.test/'', protocol = js ''https:'',
          origin = js ''https://site.test''\<rparr>"
  by (simp add: demo_URL_def js_def)



text \<open>
  C10. Two settings objects that differ only in \<open>visualFeedback\<close> and \<open>soundFeedback\<close>
  give the same outcome of \<open>shouldCaptureLink\<close>, and the same outcome of the click
  handler once the feedback effects are left out.
\<close>

theorem C10_feedback_settings_do_not_affect_capture:
  assumes "\<forall>k. k \<noteq> ''visualFeedback'' \<and> k \<noteq> ''soundFeedback'' \<longrightarrow> s1 k = s2 k"
  shows "shouldCaptureLink P D s1 anchor = shouldCaptureLink P D s2 anchor
    \<and> map_sum id (filter (\<lambda>e. \<not> is_feedback e)) (handleLinkClick P D s1 target)
      = map_sum id (filter (\<lambda>e. \<not> is_feedback e)) (handleLinkClick P D s2 target)"
proof -
  have eq: "shouldCaptureLink P D s1 a = shouldCaptureLink P D s2 a" for a
    using get_agree [OF assms] by (rule shouldCaptureLink_cong)
  then show ?thesis
    by (simp add: handleLinkClick_decision split: option.split)
qed

theorem C10_feedback_settings_do_not_affect_capture_witness:
  "shouldCaptureLink demo_page (demo_dom (js ''https://other.example/x'')) (demo_settings True ''all'') 0
     = shouldCaptureLink demo_page (demo_dom (js ''https://other.example/x''))
         ((demo_settings True ''all'')(''visualFeedback'' \<mapsto> JBool False, ''soundFeedback'' \<mapsto> JBool True)) 0
   \<and> map_sum id (filter (\<lambda>e. \<not> is_feedback e))
        (handleLinkClick demo_page (demo_dom (js ''https://other.example/x'')) (demo_settings True ''all'') 0)
     = map_sum id (filter (\<lambda>e. \<not> is_feedback e))
        (handleLinkClick demo_page (demo_dom (js ''https://other.example/x''))
          ((demo_settings True ''all'')(''visualFeedback'' \<mapsto> JBool False, ''soundFeedback'' \<mapsto> JBool True)) 0)"
proof -
  have "\<forall>k. k \<noteq> ''visualFeedback'' \<and> k \<noteq> ''soundFeedback'' \<longrightarrow>
      demo_settings True ''all'' k
      = ((demo_settings True ''all'')(''visualFeedback'' \<mapsto> JBool False, ''soundFeedback'' \<mapsto> JBool True)) k"
    by simp
  from C10_feedback_settings_do_not_affect_capture [OF this] show ?thesis .
qed

section \<open>The forwarding URI and its round trip\<close>

lemma index_of_nth:
  "distinct xs \<Longrightarrow> n < length xs \<Longrightarrow> index_of (xs ! n) xs = Some n"
proof (induction xs arbitrary: n)
  case Nil
  then show ?case by simp
next
  case (Cons y ys)
  show ?case
  proof (cases n)
    case 0
    then show ?thesis by simp
  next
    case (Suc m)
    with Cons.prems have "ys ! m \<noteq> y" "m < length ys" "distinct ys"
      by (auto simp: in_set_conv_nth)
    with Cons.IH [of m] Suc show ?thesis by simp
  qed
qed

lemma b64_alphabet_length: "length b64_alphabet = 64"
  by (simp add: b64_alphabet_def js_def)

lemma b64_alphabet_distinct: "distinct b64_alphabet"
  by (simp add: b64_alphabet_def js_def)

lemma b64_pad_not_in_alphabet: "b64_pad \<notin> set b64_alphabet"
  by (simp add: b64_alphabet_def js_def b64_pad_def)

lemma b64_value_char: "n < 64 \<Longrightarrow> b64_value (b64_char n) = Some n"
  by (simp add: b64_value_def b64_char_def index_of_nth b64_alphabet_distinct b64_alphabet_length)

lemma b64_char_not_pad: "n < 64 \<Longrightarrow> b64_char n \<noteq> b64_pad"
proof
  assume n: "n < 64" and eq: "b64_char n = b64_pad"
  from n have "b64_alphabet ! n \<in> set b64_alphabet"
    by (simp add: b64_alphabet_length)
  with eq b64_pad_not_in_alphabet show False
    by (simp add: b64_char_def)
qed


lemma byte_bound: "unat (a :: byte) < 256"
  using unsigned_less [of a, where 'a = nat] by simp

lemma sextets_lt:
  fixes x y z :: nat
  assumes "x < 256" "y < 256" "z < 256"
  shows "x div 4 < 64" "(x mod 4) * 16 + y div 16 < 64" "(y mod 16) * 4 + z div 64 < 64"
    "z mod 64 < 64" "(x mod 4) * 16 < 64" "(y mod 16) * 4 < 64"
  using assms by arith+

lemma sextets_1:
  fixes x y :: nat
  assumes "y < 256"
  shows "(x div 4) * 4 + ((x mod 4) * 16 + y div 16) div 16 = x"
proof -
  have "y div 16 < 16" using assms by arith
  then have "((x mod 4) * 16 + y div 16) div 16 = x mod 4" by simp
  then show ?thesis by simp
qed

lemma sextets_2:
  fixes y z :: nat
  assumes "y < 256" "z < 256"
  shows "(((x mod 4) * 16 + y div 16) mod 16) * 16 + ((y mod 16) * 4 + z div 64) div 4 = y"
proof -
  have a: "y div 16 < 16" using assms by arith
  have b: "z div 64 < 4" using assms by arith
  have "((x mod 4) * 16 + y div 16) mod 16 = y div 16" using a by simp
  moreover have "((y mod 16) * 4 + z div 64) div 4 = y mod 16" using b by simp
  ultimately show ?thesis by simp
qed

lemma sextets_3:
  fixes z :: nat
  assumes "z < 256"
  shows "(((y mod 16) * 4 + z div 64) mod 4) * 64 + z mod 64 = z"
proof -
  have b: "z div 64 < 4" using assms by arith
  have "((y mod 16) * 4 + z div 64) mod 4 = z div 64" using b by simp
  then show ?thesis by simp
qed


lemma base64_quad:
  assumes "s1 < 64" "s2 < 64" "s3 < 64" "s4 < 64"
    and "of_nat (s1 * 4 + s2 div 16) = (a :: byte)"
    and "of_nat ((s2 mod 16) * 16 + s3 div 4) = (b :: byte)"
    and "of_nat ((s3 mod 4) * 64 + s4) = (c :: byte)"
  shows "base64_decode (b64_char s1 # b64_char s2 # b64_char s3 # b64_char s4 # rest) =
    map_option (\<lambda>bs. a # b # c # bs) (base64_decode rest)"
proof -
  have "base64_decode (b64_char s1 # b64_char s2 # b64_char s3 # b64_char s4 # rest) =
    map_option (\<lambda>bs. of_nat (s1 * 4 + s2 div 16) # of_nat ((s2 mod 16) * 16 + s3 div 4)
                           # of_nat ((s3 mod 4) * 64 + s4) # bs) (base64_decode rest)"
    using assms(1-4) by (simp add: b64_value_char b64_char_not_pad del: of_nat_add of_nat_mult)
  then show ?thesis
    by (simp only: assms(5-7))
qed

lemma base64_pad1:
  assumes "s1 < 64" "s2 < 64" "s3 < 64"
    and "of_nat (s1 * 4 + s2 div 16) = (a :: byte)"
    and "of_nat ((s2 mod 16) * 16 + s3 div 4) = (b :: byte)"
  shows "base64_decode [b64_char s1, b64_char s2, b64_char s3, b64_pad] = Some [a, b]"
proof -
  have "base64_decode [b64_char s1, b64_char s2, b64_char s3, b64_pad] =
    Some [of_nat (s1 * 4 + s2 div 16), of_nat ((s2 mod 16) * 16 + s3 div 4)]"
    using assms(1-3) by (simp add: b64_value_char b64_char_not_pad del: of_nat_add of_nat_mult)
  then show ?thesis
    by (simp only: assms(4,5))
qed

lemma base64_pad2:
  assumes "s1 < 64" "s2 < 64"
    and "of_nat (s1 * 4 + s2 div 16) = (a :: byte)"
  shows "base64_decode [b64_char s1, b64_char s2, b64_pad, b64_pad] = Some [a]"
proof -
  have "base64_decode [b64_char s1, b64_char s2, b64_pad, b64_pad] =
    Some [of_nat (s1 * 4 + s2 div 16)]"
    using assms(1,2) by (simp add: b64_value_char del: of_nat_add of_nat_mult)
  then show ?thesis
    by (simp only: assms(3))
qed

lemma of_nat_unat_byte: "n = unat a \<Longrightarrow> of_nat n = (a :: byte)"
  by simp

lemma base64_roundtrip: "base64_decode (base64_encode bs) = Some bs"
proof (induction bs rule: base64_encode.induct)
  case 1
  show ?case by simp
next
  case (2 a)
  define x where "x = unat a"
  have x: "x < 256" by (simp add: x_def byte_bound)
  have enc: "base64_encode [a] = [b64_char (x div 4), b64_char ((x mod 4) * 16), b64_pad, b64_pad]"
    by (simp add: x_def Let_def)
  have "(x div 4) * 4 + ((x mod 4) * 16) div 16 = x" by simp
  then have a: "of_nat ((x div 4) * 4 + ((x mod 4) * 16) div 16) = a"
    by (intro of_nat_unat_byte) (simp only: x_def)
  show ?case
    unfolding enc using sextets_lt [OF x x x] a by (intro base64_pad2)
next
  case (3 a b)
  define x y where "x = unat a" and "y = unat b"
  have x: "x < 256" and y: "y < 256" by (simp_all add: x_def y_def byte_bound)
  have enc: "base64_encode [a, b] =
    [b64_char (x div 4), b64_char ((x mod 4) * 16 + y div 16), b64_char ((y mod 16) * 4), b64_pad]"
    by (simp add: x_def y_def Let_def)
  have a: "of_nat ((x div 4) * 4 + ((x mod 4) * 16 + y div 16) div 16) = a"
    using sextets_1 [OF y, of x] by (intro of_nat_unat_byte) (simp only: x_def)
  have "(((x mod 4) * 16 + y div 16) mod 16) * 16 + ((y mod 16) * 4) div 4 = y"
    using sextets_2 [of y 0 x] y by simp
  then have b: "of_nat ((((x mod 4) * 16 + y div 16) mod 16) * 16 + ((y mod 16) * 4) div 4) = b"
    by (intro of_nat_unat_byte) (simp only: y_def)
  show ?case
    unfolding enc using sextets_lt [OF x y y] a b by (intro base64_pad1)
next
  case (4 a b c rest)
  define x y z where "x = unat a" and "y = unat b" and "z = unat c"
  have x: "x < 256" and y: "y < 256" and z: "z < 256"
    by (simp_all add: x_def y_def z_def byte_bound)
  have enc: "base64_encode (a # b # c # rest) =
    b64_char (x div 4) # b64_char ((x mod 4) * 16 + y div 16) #
     b64_char ((y mod 16) * 4 + z div 64) # b64_char (z mod 64) # base64_encode rest"
    by (simp add: x_def y_def z_def Let_def)
  have a: "of_nat ((x div 4) * 4 + ((x mod 4) * 16 + y div 16) div 16) = a"
    using sextets_1 [OF y, of x] by (intro of_nat_unat_byte) (simp only: x_def)
  have b: "of_nat ((((x mod 4) * 16 + y div 16) mod 16) * 16 + ((y mod 16) * 4 + z div 64) div 4) = b"
    using sextets_2 [OF y z, of x] by (intro of_nat_unat_byte) (simp only: y_def)
  have c: "of_nat ((((y mod 16) * 4 + z div 64) mod 4) * 64 + z mod 64) = c"
    using sextets_3 [OF z, of y] by (intro of_nat_unat_byte) (simp only: z_def)
  have "base64_decode (base64_encode (a # b # c # rest)) =
    map_option (\<lambda>bs. a # b # c # bs) (base64_decode (base64_encode rest))"
    unfolding enc using sextets_lt [OF x y z] a b c by (intro base64_quad)
  then show ?case
    by (simp only: "4.IH" option.map)
qed

lemma unit_lt_0x80: "(c :: 16 word) < 0x80 \<Longrightarrow> unat c < 128"
  by (simp add: word_less_nat_alt)

lemma ascii_not_surrogate:
  "(c :: 16 word) < 0x80 \<Longrightarrow> scalar_of_unit c = unat c"
  "(c :: 16 word) < 0x80 \<Longrightarrow> \<not> is_high_surrogate c"
  by (auto simp: scalar_of_unit_def is_high_surrogate_def is_low_surrogate_def
      word_less_nat_alt word_le_nat_alt)

lemma codepoints_ascii: "list_all (\<lambda>c. c < 0x80) s \<Longrightarrow> codepoints s = map unat s"
  by (induction s rule: codepoints.induct) (simp_all add: ascii_not_surrogate)

lemma utf8_of_ascii: "(c :: 16 word) < 0x80 \<Longrightarrow> utf8_of_codepoint (unat c) = [ucast c]"
  by (simp add: utf8_of_codepoint_def unit_lt_0x80)

lemma utf8_ascii: "list_all (\<lambda>c. c < 0x80) s \<Longrightarrow> utf8 s = map ucast s"
proof -
  assume a: "list_all (\<lambda>c. c < 0x80) s"
  then have "concat (map utf8_of_codepoint (map unat s)) = map ucast s"
    by (induction s) (simp_all add: utf8_of_ascii)
  with a show ?thesis by (simp add: utf8_def codepoints_ascii)
qed

lemma ucast_ascii:
  assumes "(c :: 16 word) < 0x80"
  shows "(ucast c :: byte) < 0x80" "unat (ucast c :: byte) = unat c"
proof -
  have "unat c < 128" using assms by (rule unit_lt_0x80)
  then show u: "unat (ucast c :: byte) = unat c"
    by (simp add: unsigned_ucast_eq take_bit_nat_eq_self)
  with \<open>unat c < 128\<close> show "(ucast c :: byte) < 0x80"
    by (simp add: word_less_nat_alt)
qed

lemma utf8_decode_ascii_Cons:
  "b0 < 0x80 \<Longrightarrow> utf8_decode (b0 # bs) = map_option ((#) (unat b0)) (utf8_decode bs)"
  by simp

lemma utf8_decode_ascii:
  "list_all (\<lambda>c. c < 0x80) (s :: jsstring) \<Longrightarrow> utf8_decode (map ucast s) = Some (map unat s)"
proof (induction s)
  case Nil
  show ?case by simp
next
  case (Cons c s)
  then have c: "c < 0x80" and s: "utf8_decode (map ucast s) = Some (map unat s)"
    by simp_all
  have "utf8_decode (map ucast (c # s)) = utf8_decode (ucast c # map ucast s)"
    by simp
  also have "\<dots> = map_option ((#) (unat (ucast c :: byte))) (utf8_decode (map ucast s))"
    using ucast_ascii(1) [OF c] by (rule utf8_decode_ascii_Cons)
  also have "\<dots> = Some (map unat (c # s))"
    by (simp add: s ucast_ascii(2) [OF c])
  finally show ?case .
qed

lemma utf16_ascii:
  "list_all (\<lambda>c. c < 0x80) (s :: jsstring) \<Longrightarrow> concat (map utf16_of_codepoint (map unat s)) = s"
proof (induction s)
  case Nil
  show ?case by simp
next
  case (Cons c s)
  then have "unat c < 128" by (simp add: unit_lt_0x80)
  then have "utf16_of_codepoint (unat c) = [c]"
    by (simp add: utf16_of_codepoint_def)
  with Cons show ?case by simp
qed

lemma startsWith_append: "startsWith (p @ s) p"
  by (induction p) simp_all

lemma receiver_decode_uri:
  "receiver_decode (js ''proxly://open/'' @ base64_encode bs) =
    map_option (\<lambda>cps. concat (map utf16_of_codepoint cps)) (utf8_decode bs)"
  by (simp add: receiver_decode_def startsWith_append base64_roundtrip)

lemma btoa_ascii: "list_all (\<lambda>c. c < 0x80) s \<Longrightarrow> btoa s = Inr (base64_encode (map ucast s))"
proof -
  assume "list_all (\<lambda>c. c < 0x80) s"
  then have "list_all (\<lambda>c. c \<le> 0xFF) s"
    by (induction s) (auto simp: word_less_nat_alt word_le_nat_alt)
  then show ?thesis by (simp add: btoa_def)
qed

text \<open>
  What holds on both paths: for a target URL made of ASCII characters, which is what the
  \<open>href\<close> of a parsed URL is, the content script builds the forwarding URI whose segment
  is the standard base64 encoding of the UTF-8 URL, and decoding that segment yields the
  URL exactly; the native handler builds the URI with that segment for every string that
  passes its guards.
\<close>

lemma forwardToProxlyDirect_ascii:
  assumes "list_all (\<lambda>c. c < 0x80) url"
  shows "forwardToProxlyDirect url = Inr (js ''proxly://open/'' @ base64_encode (utf8 url))"
  using assms by (simp add: forwardToProxlyDirect_def btoa_ascii utf8_ascii)

lemma receiver_decode_ascii:
  assumes "list_all (\<lambda>c. c < 0x80) url"
  shows "receiver_decode (js ''proxly://open/'' @ base64_encode (utf8 url)) = Some url"
proof -
  have "utf8_decode (utf8 url) = Some (map unat url)"
    using assms by (simp only: utf8_ascii utf8_decode_ascii)
  then show ?thesis
    using utf16_ascii [OF assms] by (simp only: receiver_decode_uri option.map)
qed

lemma handleForwardUrl_open_request:
  assumes "get messageDict ''url'' = JStr urlString"
    and "URL_string F urlString = Some (Some scheme)"
    and "scheme = js ''http'' \<or> scheme = js ''https''"
    and "URL_string F (js ''proxly://open/'' @ base64_encode (utf8 urlString)) = Some p"
  shows "open_request (handleForwardUrl F messageDict)
    = Some (js ''proxly://open/'' @ base64_encode (utf8 urlString))"
  using assms by (auto simp: handleForwardUrl_def Let_def)

lemma scalar_of_unit_scalar:
  "scalar_of_unit c < 0x10000 \<and> \<not> (0xD800 \<le> scalar_of_unit c \<and> scalar_of_unit c \<le> 0xDFFF)"
proof -
  have "unat c < 65536"
    using unsigned_less [of c, where 'a = nat] by simp
  then show ?thesis
    by (auto simp: scalar_of_unit_def is_high_surrogate_def is_low_surrogate_def
        word_le_nat_alt)
qed

lemma pair_scalar:
  assumes "is_high_surrogate c" "is_low_surrogate d"
  shows "0x10000 + (unat c - 0xD800) * 0x400 + (unat d - 0xDC00) < 0x110000"
    and "\<not> (0xD800 \<le> 0x10000 + (unat c - 0xD800) * 0x400 + (unat d - 0xDC00)
      \<and> 0x10000 + (unat c - 0xD800) * 0x400 + (unat d - 0xDC00) \<le> 0xDFFF)"
proof -
  have "0xD800 \<le> unat c" "unat c \<le> 0xDBFF" "0xDC00 \<le> unat d" "unat d \<le> 0xDFFF"
    using assms by (simp_all add: is_high_surrogate_def is_low_surrogate_def word_le_nat_alt)
  then show "0x10000 + (unat c - 0xD800) * 0x400 + (unat d - 0xDC00) < 0x110000"
    by simp
  show "\<not> (0xD800 \<le> 0x10000 + (unat c - 0xD800) * 0x400 + (unat d - 0xDC00)
      \<and> 0x10000 + (unat c - 0xD800) * 0x400 + (unat d - 0xDC00) \<le> 0xDFFF)"
    by simp
qed

lemma codepoints_scalar:
  "list_all (\<lambda>n. n < 0x110000 \<and> \<not> (0xD800 \<le> n \<and> n \<le> 0xDFFF)) (codepoints s)"
proof (induction s rule: codepoints.induct)
  case 1
  show ?case by simp
next
  case (2 c)
  show ?case using scalar_of_unit_scalar [of c] by simp
next
  case (3 c d r)
  show ?case
    using 3 scalar_of_unit_scalar [of c] pair_scalar [of c d]
    by auto
qed

lemma utf8_decode_1:
  assumes "n < 0x80"
  shows "utf8_decode (utf8_of_codepoint n @ rest) = map_option ((#) n) (utf8_decode rest)"
proof -
  have u: "unat (of_nat n :: byte) = n"
    using assms by (simp add: unat_of_nat)
  then have "(of_nat n :: byte) < 0x80"
    using assms by (simp add: word_less_nat_alt)
  then show ?thesis
    using assms u by (simp add: utf8_of_codepoint_def)
qed


lemma utf8_decode_bytes_2:
  assumes "0xC2 \<le> k0" "k0 \<le> 0xDF" "0x80 \<le> k1" "k1 \<le> 0xBF"
  shows "utf8_decode ((of_nat k0 :: byte) # of_nat k1 # rest) =
    map_option ((#) ((k0 - 0xC0) * 0x40 + (k1 - 0x80))) (utf8_decode rest)"
proof -
  have u: "unat (of_nat k0 :: byte) = k0" "unat (of_nat k1 :: byte) = k1"
    using assms by (simp_all add: unat_of_nat)
  have c: "\<not> (of_nat k0 :: byte) < 0x80" "0xC2 \<le> (of_nat k0 :: byte)" "(of_nat k0 :: byte) \<le> 0xDF"
    "is_continuation (of_nat k1)"
    using assms unfolding is_continuation_def word_le_nat_alt word_less_nat_alt u by simp_all
  show ?thesis
    by (simp only: utf8_decode.simps c u if_True if_False simp_thms list.case)
qed

lemma utf8_decode_bytes_3:
  assumes "0xE0 \<le> k0" "k0 \<le> 0xEF" "0x80 \<le> k1" "k1 \<le> 0xBF" "0x80 \<le> k2" "k2 \<le> 0xBF"
    and "0x800 \<le> (k0 - 0xE0) * 0x1000 + (k1 - 0x80) * 0x40 + (k2 - 0x80)"
    and "\<not> (0xD800 \<le> (k0 - 0xE0) * 0x1000 + (k1 - 0x80) * 0x40 + (k2 - 0x80)
           \<and> (k0 - 0xE0) * 0x1000 + (k1 - 0x80) * 0x40 + (k2 - 0x80) \<le> 0xDFFF)"
  shows "utf8_decode ((of_nat k0 :: byte) # of_nat k1 # of_nat k2 # rest) =
    map_option ((#) ((k0 - 0xE0) * 0x1000 + (k1 - 0x80) * 0x40 + (k2 - 0x80))) (utf8_decode rest)"
proof -
  have u: "unat (of_nat k0 :: byte) = k0" "unat (of_nat k1 :: byte) = k1"
    "unat (of_nat k2 :: byte) = k2"
    using assms(1-6) by (simp_all add: unat_of_nat)
  have c: "\<not> (of_nat k0 :: byte) < 0x80" "\<not> (0xC2 \<le> (of_nat k0 :: byte) \<and> (of_nat k0 :: byte) \<le> 0xDF)"
    "0xE0 \<le> (of_nat k0 :: byte)" "(of_nat k0 :: byte) \<le> 0xEF"
    "is_continuation (of_nat k1)" "is_continuation (of_nat k2)"
    using assms(1-6) unfolding is_continuation_def word_le_nat_alt word_less_nat_alt u by simp_all
  show ?thesis
    using assms(7,8)
    by (simp only: utf8_decode.simps c u if_True if_False simp_thms list.case Let_def)
qed

lemma utf8_decode_bytes_4:
  assumes "0xF0 \<le> k0" "k0 \<le> 0xF4" "0x80 \<le> k1" "k1 \<le> 0xBF" "0x80 \<le> k2" "k2 \<le> 0xBF"
    "0x80 \<le> k3" "k3 \<le> 0xBF"
    and "0x10000 \<le> (k0 - 0xF0) * 0x40000 + (k1 - 0x80) * 0x1000 + (k2 - 0x80) * 0x40 + (k3 - 0x80)"
    and "(k0 - 0xF0) * 0x40000 + (k1 - 0x80) * 0x1000 + (k2 - 0x80) * 0x40 + (k3 - 0x80) \<le> 0x10FFFF"
  shows "utf8_decode ((of_nat k0 :: byte) # of_nat k1 # of_nat k2 # of_nat k3 # rest) =
    map_option ((#) ((k0 - 0xF0) * 0x40000 + (k1 - 0x80) * 0x1000 + (k2 - 0x80) * 0x40 + (k3 - 0x80)))
      (utf8_decode rest)"
proof -
  have u: "unat (of_nat k0 :: byte) = k0" "unat (of_nat k1 :: byte) = k1"
    "unat (of_nat k2 :: byte) = k2" "unat (of_nat k3 :: byte) = k3"
    using assms(1-8) by (simp_all add: unat_of_nat)
  have c: "\<not> (of_nat k0 :: byte) < 0x80" "\<not> (0xC2 \<le> (of_nat k0 :: byte) \<and> (of_nat k0 :: byte) \<le> 0xDF)"
    "\<not> (0xE0 \<le> (of_nat k0 :: byte) \<and> (of_nat k0 :: byte) \<le> 0xEF)"
    "0xF0 \<le> (of_nat k0 :: byte)" "(of_nat k0 :: byte) \<le> 0xF4"
    "is_continuation (of_nat k1)" "is_continuation (of_nat k2)" "is_continuation (of_nat k3)"
    using assms(1-8) unfolding is_continuation_def word_le_nat_alt word_less_nat_alt u by simp_all
  show ?thesis
    using assms(9,10)
    by (simp only: utf8_decode.simps c u if_True if_False simp_thms list.case Let_def)
qed

lemma split3: "(n div 0x1000) * 0x1000 + ((n div 0x40) mod 0x40) * 0x40 + n mod 0x40 = (n::nat)"
proof -
  define m where "m = n div 0x40"
  have a: "n div 0x1000 = m div 0x40"
    unfolding m_def by (simp add: div_mult2_eq)
  have e: "m div 0x40 * 0x40 + m mod 0x40 = m"
    by simp
  have "m * 0x40 = (m div 0x40 * 0x40 + m mod 0x40) * 0x40"
    by (simp only: e)
  also have "\<dots> = m div 0x40 * (0x40 * 0x40) + (m mod 0x40) * 0x40"
    by (simp only: add_mult_distrib mult.assoc)
  finally have b: "m div 0x40 * 0x1000 + (m mod 0x40) * 0x40 = m * 0x40"
    by simp
  have "m * 0x40 + n mod 0x40 = n"
    unfolding m_def by simp
  then have "m div 0x40 * 0x1000 + (m mod 0x40) * 0x40 + n mod 0x40 = n"
    by (simp only: b)
  then show ?thesis
    by (simp only: a m_def)
qed

lemma split4:
  "(n div 0x40000) * 0x40000 + ((n div 0x1000) mod 0x40) * 0x1000
     + ((n div 0x40) mod 0x40) * 0x40 + n mod 0x40 = (n::nat)"
proof -
  define m where "m = n div 0x1000"
  have a: "n div 0x40000 = m div 0x40"
    unfolding m_def by (simp add: div_mult2_eq)
  have e: "m div 0x40 * 0x40 + m mod 0x40 = m"
    by simp
  have "m * 0x1000 = (m div 0x40 * 0x40 + m mod 0x40) * 0x1000"
    by (simp only: e)
  also have "\<dots> = m div 0x40 * (0x40 * 0x1000) + (m mod 0x40) * 0x1000"
    by (simp only: add_mult_distrib mult.assoc)
  finally have b: "m div 0x40 * 0x40000 + (m mod 0x40) * 0x1000 = m * 0x1000"
    by simp
  have "m * 0x1000 + ((n div 0x40) mod 0x40) * 0x40 + n mod 0x40 = n"
    unfolding m_def by (rule split3)
  then have "m div 0x40 * 0x40000 + (m mod 0x40) * 0x1000
     + ((n div 0x40) mod 0x40) * 0x40 + n mod 0x40 = n"
    by (simp only: b)
  then show ?thesis
    by (simp only: a m_def)
qed

lemma utf8_decode_2:
  assumes "0x80 \<le> n" "n < 0x800"
  shows "utf8_decode (utf8_of_codepoint n @ rest) = map_option ((#) n) (utf8_decode rest)"
proof -
  define k0 k1 where "k0 = 0xC0 + n div 0x40" and "k1 = 0x80 + n mod 0x40"
  have "2 \<le> n div 0x40" "n div 0x40 < 0x20" "n mod 0x40 < 0x40"
    using assms by simp_all
  then have b: "0xC2 \<le> k0" "k0 \<le> 0xDF" "0x80 \<le> k1" "k1 \<le> 0xBF"
    unfolding k0_def k1_def by simp_all
  have r: "(k0 - 0xC0) * 0x40 + (k1 - 0x80) = n"
    unfolding k0_def k1_def by simp
  have enc: "utf8_of_codepoint n = [of_nat k0, of_nat k1]"
    using assms unfolding utf8_of_codepoint_def k0_def k1_def by simp
  show ?thesis
    unfolding enc using utf8_decode_bytes_2 [OF b, of rest] by (simp only: r append.simps)
qed

lemma utf8_decode_3:
  assumes "0x800 \<le> n" "n < 0x10000" "\<not> (0xD800 \<le> n \<and> n \<le> 0xDFFF)"
  shows "utf8_decode (utf8_of_codepoint n @ rest) = map_option ((#) n) (utf8_decode rest)"
proof -
  define k0 k1 k2 where "k0 = 0xE0 + n div 0x1000" and "k1 = 0x80 + (n div 0x40) mod 0x40"
    and "k2 = 0x80 + n mod 0x40"
  have "n div 0x1000 < 0x10" "(n div 0x40) mod 0x40 < 0x40" "n mod 0x40 < 0x40"
    using assms by simp_all
  then have b: "0xE0 \<le> k0" "k0 \<le> 0xEF" "0x80 \<le> k1" "k1 \<le> 0xBF" "0x80 \<le> k2" "k2 \<le> 0xBF"
    unfolding k0_def k1_def k2_def by simp_all
  have "(k0 - 0xE0) * 0x1000 + (k1 - 0x80) * 0x40 + (k2 - 0x80)
      = (n div 0x1000) * 0x1000 + ((n div 0x40) mod 0x40) * 0x40 + n mod 0x40"
    unfolding k0_def k1_def k2_def by simp
  then have r: "(k0 - 0xE0) * 0x1000 + (k1 - 0x80) * 0x40 + (k2 - 0x80) = n"
    by (simp only: split3)
  have enc: "utf8_of_codepoint n = [of_nat k0, of_nat k1, of_nat k2]"
    using assms unfolding utf8_of_codepoint_def k0_def k1_def k2_def by simp
  have "utf8_decode ((of_nat k0 :: byte) # of_nat k1 # of_nat k2 # rest) =
    map_option ((#) ((k0 - 0xE0) * 0x1000 + (k1 - 0x80) * 0x40 + (k2 - 0x80))) (utf8_decode rest)"
    using b assms(1,3) unfolding r [symmetric] by (rule utf8_decode_bytes_3)
  then show ?thesis
    unfolding enc by (simp only: r append.simps)
qed

lemma utf8_decode_4:
  assumes "0x10000 \<le> n" "n < 0x110000"
  shows "utf8_decode (utf8_of_codepoint n @ rest) = map_option ((#) n) (utf8_decode rest)"
proof -
  define k0 k1 k2 k3 where "k0 = 0xF0 + n div 0x40000" and "k1 = 0x80 + (n div 0x1000) mod 0x40"
    and "k2 = 0x80 + (n div 0x40) mod 0x40" and "k3 = 0x80 + n mod 0x40"
  have "n div 0x40000 < 5" "(n div 0x1000) mod 0x40 < 0x40" "(n div 0x40) mod 0x40 < 0x40"
    "n mod 0x40 < 0x40"
    using assms by simp_all
  then have b: "0xF0 \<le> k0" "k0 \<le> 0xF4" "0x80 \<le> k1" "k1 \<le> 0xBF" "0x80 \<le> k2" "k2 \<le> 0xBF"
    "0x80 \<le> k3" "k3 \<le> 0xBF"
    unfolding k0_def k1_def k2_def k3_def by simp_all
  have "(k0 - 0xF0) * 0x40000 + (k1 - 0x80) * 0x1000 + (k2 - 0x80) * 0x40 + (k3 - 0x80)
      = (n div 0x40000) * 0x40000 + ((n div 0x1000) mod 0x40) * 0x1000
        + ((n div 0x40) mod 0x40) * 0x40 + n mod 0x40"
    unfolding k0_def k1_def k2_def k3_def by simp
  then have r: "(k0 - 0xF0) * 0x40000 + (k1 - 0x80) * 0x1000 + (k2 - 0x80) * 0x40 + (k3 - 0x80) = n"
    by (simp only: split4)
  have le: "n \<le> 0x10FFFF"
    using assms by simp
  have enc: "utf8_of_codepoint n = [of_nat k0, of_nat k1, of_nat k2, of_nat k3]"
    using assms unfolding utf8_of_codepoint_def k0_def k1_def k2_def k3_def by simp
  have "utf8_decode ((of_nat k0 :: byte) # of_nat k1 # of_nat k2 # of_nat k3 # rest) =
    map_option ((#) ((k0 - 0xF0) * 0x40000 + (k1 - 0x80) * 0x1000 + (k2 - 0x80) * 0x40 + (k3 - 0x80)))
      (utf8_decode rest)"
    using b assms(1) le unfolding r [symmetric] by (rule utf8_decode_bytes_4)
  then show ?thesis
    unfolding enc by (simp only: r append.simps)
qed

lemma utf8_decode_codepoint:
  assumes "n < 0x110000" "\<not> (0xD800 \<le> n \<and> n \<le> 0xDFFF)"
  shows "utf8_decode (utf8_of_codepoint n @ rest) = map_option ((#) n) (utf8_decode rest)"
proof -
  consider "n < 0x80" | "0x80 \<le> n" "n < 0x800"
    | "0x800 \<le> n" "n < 0x10000" "\<not> (0xD800 \<le> n \<and> n \<le> 0xDFFF)"
    | "0x10000 \<le> n" "n < 0x110000"
    using assms by linarith
  then show ?thesis
  proof cases
    case 1
    then show ?thesis by (rule utf8_decode_1)
  next
    case 2
    then show ?thesis by (rule utf8_decode_2)
  next
    case 3
    then show ?thesis by (rule utf8_decode_3)
  next
    case 4
    then show ?thesis by (rule utf8_decode_4)
  qed
qed

lemma utf8_decode_concat:
  "list_all (\<lambda>n. n < 0x110000 \<and> \<not> (0xD800 \<le> n \<and> n \<le> 0xDFFF)) ns \<Longrightarrow>
    utf8_decode (concat (map utf8_of_codepoint ns)) = Some ns"
  by (induction ns) (simp_all add: utf8_decode_codepoint)

lemma utf8_decode_utf8: "utf8_decode (utf8 s) = Some (codepoints s)"
  unfolding utf8_def by (rule utf8_decode_concat) (rule codepoints_scalar)

lemma receiver_decode_utf8:
  "receiver_decode (js ''proxly://open/'' @ base64_encode (utf8 s))
    = Some (concat (map utf16_of_codepoint (codepoints s)))"
  by (simp only: receiver_decode_uri utf8_decode_utf8 option.map)

lemma utf16_unit:
  assumes "\<not> is_high_surrogate c" "\<not> is_low_surrogate c"
  shows "utf16_of_codepoint (scalar_of_unit c) = [c]"
proof -
  have "unat c < 65536"
    using unsigned_less [of c, where 'a = nat] by simp
  then show ?thesis
    using assms by (simp add: utf16_of_codepoint_def scalar_of_unit_def)
qed

lemma utf16_codepoints:
  "list_all (\<lambda>c. \<not> is_high_surrogate c \<and> \<not> is_low_surrogate c) s \<Longrightarrow>
    concat (map utf16_of_codepoint (codepoints s)) = s"
  by (induction s rule: codepoints.induct) (simp_all add: utf16_unit)

text \<open>
  The native handler on every URL without surrogate code units that passes its guards:
  the URI it opens has the base64 of the UTF-8 URL as its segment, and decoding the
  segment yields the URL exactly.
\<close>

lemma handleForwardUrl_round_trip:
  assumes "get messageDict ''url'' = JStr urlString"
    and "URL_string F urlString = Some (Some scheme)"
    and "scheme = js ''http'' \<or> scheme = js ''https''"
    and "URL_string F (js ''proxly://open/'' @ base64_encode (utf8 urlString)) = Some p"
    and "list_all (\<lambda>c. \<not> is_high_surrogate c \<and> \<not> is_low_surrogate c) urlString"
  shows "open_request (handleForwardUrl F messageDict)
      = Some (js ''proxly://open/'' @ base64_encode (utf8 urlString))"
    and "receiver_decode (js ''proxly://open/'' @ base64_encode (utf8 urlString)) = Some urlString"
proof -
  show "open_request (handleForwardUrl F messageDict)
      = Some (js ''proxly://open/'' @ base64_encode (utf8 urlString))"
    using assms(1-4) by (rule handleForwardUrl_open_request)
  show "receiver_decode (js ''proxly://open/'' @ base64_encode (utf8 urlString)) = Some urlString"
    using utf16_codepoints [OF assms(5)] by (simp only: receiver_decode_utf8)
qed

lemma forwardToProxlyDirect_serialised:
  "forwardToProxlyDirect (js ''https://a.io/%C3%A9?q=1&r=%20'')
     = Inr (js ''proxly://open/aHR0cHM6Ly9hLmlvLyVDMyVBOT9xPTEmcj0lMjA='')
   \<and> receiver_decode (js ''proxly://open/aHR0cHM6Ly9hLmlvLyVDMyVBOT9xPTEmcj0lMjA='')
     = Some (js ''https://a.io/%C3%A9?q=1&r=%20'')"
proof -
  have a: "list_all (\<lambda>c. c < 0x80) (js ''https://a.io/%C3%A9?q=1&r=%20'')"
    by (simp add: js_def)
  have b: "js ''proxly://open/'' @ base64_encode (utf8 (js ''https://a.io/%C3%A9?q=1&r=%20''))
      = js ''proxly://open/aHR0cHM6Ly9hLmlvLyVDMyVBOT9xPTEmcj0lMjA=''"
    by (simp add: utf8_ascii [OF a]) (simp add: js_def b64_char_def b64_alphabet_def b64_pad_def)
  from forwardToProxlyDirect_ascii [OF a] receiver_decode_ascii [OF a] show ?thesis
    by (simp only: b)
qed

lemma btoa_rejects_wide_units:
  "forwardToProxlyDirect (js ''https://a.io/'' @ [0x65E5]) = Inl InvalidCharacterError"
  by (simp add: forwardToProxlyDirect_def btoa_def js_def)





section \<open>The context-menu path and the effects of a click\<close>

text \<open>
  What holds with \<open>linkMode = 'context'\<close>: \<open>shouldCaptureLink\<close> never returns true, and
  it returns false on every anchor whose \<open>href\<close> property is a string and on every node
  without an \<open>href\<close> attribute. A click on the extension's context-menu item for a link
  calls the forwarder exactly when the link URL passes \<open>isValidUrl\<close>; no setting takes
  part in that decision. For a valid link URL of code units up to \<open>0xFF\<close>, which \<open>btoa\<close>
  accepts, the tab is sent to the forwarding URI.
\<close>

lemma shouldCaptureLink_context:
  assumes "get settings ''linkMode'' = JStr (js ''context'')"
  shows "shouldCaptureLink P D settings anchor \<noteq> Inr True"
    and "\<not> hasAttribute D anchor ''href'' \<Longrightarrow> shouldCaptureLink P D settings anchor = Inr False"
    and "href D anchor = HrefString h \<Longrightarrow> shouldCaptureLink P D settings anchor = Inr False"
proof -
  have "JStr (js ''context'') \<noteq> JStr (js ''all'')"
    by (simp add: js_def)
  with assms have ne: "get settings ''linkMode'' \<noteq> JStr (js ''all'')"
    by simp
  show "shouldCaptureLink P D settings anchor \<noteq> Inr True"
    using ne by (auto simp: shouldCaptureLink_def Let_def split: href_value.splits)
  show "\<not> hasAttribute D anchor ''href'' \<Longrightarrow> shouldCaptureLink P D settings anchor = Inr False"
    by (simp add: shouldCaptureLink_def)
  show "href D anchor = HrefString h \<Longrightarrow> shouldCaptureLink P D settings anchor = Inr False"
    using ne by (simp add: shouldCaptureLink_def Let_def)
qed

lemma handleContextMenuClick_forwards:
  assumes "menuItemId info = js ''proxly-open-url''"
    and "linkUrl info = Some u" and "u \<noteq> []"
  shows "handleContextMenuClick P info tab =
        (if isValidUrl P u
         then (case forwardToProxly u tab of Inl e \<Rightarrow> [] | Inr effects \<Rightarrow> effects)
         else [])"
    and "isValidUrl P u \<Longrightarrow> list_all (\<lambda>c. c \<le> 0xFF) u \<Longrightarrow>
         handleContextMenuClick P info tab =
           [TabsUpdate tab (js ''proxly://open/'' @ base64_encode (map ucast u))]"
  using assms by (simp_all add: handleContextMenuClick_def forwardToProxly_def btoa_def)

lemma demo_valid: "isValidUrl demo_page (js ''https://other.example/x'')"
  by (simp add: isValidUrl_def demo_facts demo_URL_other)

lemma demo_btoa:
  "btoa (js ''https://other.example/x'') = Inr (js ''aHR0cHM6Ly9vdGhlci5leGFtcGxlL3g='')"
  by (simp add: btoa_def js_def b64_char_def b64_alphabet_def b64_pad_def)

lemma demo_context_menu:
  "handleContextMenuClick demo_page
        \<lparr>menuItemId = js ''proxly-open-url'', linkUrl = Some (js ''https://other.example/x'')\<rparr> 7
      = [TabsUpdate 7 (js ''proxly://open/aHR0cHM6Ly9vdGhlci5leGFtcGxlL3g='')]"
  "handleContextMenuClick demo_page
        \<lparr>menuItemId = js ''proxly-open-url'', linkUrl = Some (js ''ftp://other.example/x'')\<rparr> 7
      = []"
proof -
  have ne: "js ''https://other.example/x'' \<noteq> []" "js ''ftp://other.example/x'' \<noteq> []"
    by (simp_all add: js_def)
  have inv: "\<not> isValidUrl demo_page (js ''ftp://other.example/x'')"
    by (simp add: isValidUrl_def demo_facts demo_URL_def js_def)
  show "handleContextMenuClick demo_page
        \<lparr>menuItemId = js ''proxly-open-url'', linkUrl = Some (js ''https://other.example/x'')\<rparr> 7
      = [TabsUpdate 7 (js ''proxly://open/aHR0cHM6Ly9vdGhlci5leGFtcGxlL3g='')]"
    using ne(1) demo_valid
    by (simp add: handleContextMenuClick_def forwardToProxly_def demo_btoa) (simp add: js_def)
  show "handleContextMenuClick demo_page
        \<lparr>menuItemId = js ''proxly-open-url'', linkUrl = Some (js ''ftp://other.example/x'')\<rparr> 7
      = []"
    using ne(2) inv by (simp add: handleContextMenuClick_def)
qed

lemma demo_context_click:
  "shouldCaptureLink demo_page (demo_dom (js ''https://other.example/x''))
      (demo_settings True ''context'') 0 = Inr False"
  using shouldCaptureLink_context(3) [OF demo_facts(5) demo_facts(3)] .

text \<open>
  C3. The code at an SVG anchor with \<open>linkMode = 'context'\<close>: node 0 of \<open>svg_dom\<close> is an
  \<open>a\<close> element with an \<open>href\<close> attribute, which \<open>findLinkElement\<close> returns for a click
  on it. \<open>shouldCaptureLink\<close> does not return false for that direct click: it throws a
  \<open>TypeError\<close> at \<open>anchor.href.toLowerCase()\<close>, before it reads \<open>linkMode\<close>, and the
  exception leaves \<open>handleLinkClick\<close>.
\<close>

theorem C3_context_mode_svg_anchor_throws:
  "findLinkElement svg_dom 0 = Some 0
   \<and> hasAttribute svg_dom 0 ''href''
   \<and> get (demo_settings True ''context'') ''linkMode'' = JStr (js ''context'')
   \<and> shouldCaptureLink demo_page svg_dom (demo_settings True ''context'') 0 = Inl TypeError
   \<and> handleLinkClick demo_page svg_dom (demo_settings True ''context'') 0 = Inl TypeError"
proof -
  have s: "shouldCaptureLink demo_page svg_dom (demo_settings True ''context'') 0 = Inl TypeError"
    by (simp add: shouldCaptureLink_def svg_dom_facts)
  then have "handleLinkClick demo_page svg_dom (demo_settings True ''context'') 0 = Inl TypeError"
    by (simp add: handleLinkClick_def svg_dom_facts)
  with s show ?thesis
    by (simp add: svg_dom_facts demo_facts)
qed

lemma demo_click_effects:
  "handleLinkClick demo_page (demo_dom (js ''https://other.example/x'')) (demo_settings True ''all'') 0
    = Inr [PreventDefault, StopPropagation, Announce ''accessibilityLinkCapture'', ShowVisualFeedback,
       SetLocationHref (js ''proxly://open/aHR0cHM6Ly9vdGhlci5leGFtcGxlL3g='')]"
proof -
  have f: "findLinkElement (demo_dom (js ''https://other.example/x'')) 0 = Some 0"
    by (simp add: findLinkElement_def findLink_loop.simps [of _ "Some 0" 0] demo_dom_def
        is_anchor_tag_def maxDepth_def toLowerCase_def lower_unit_def js_def)
  have "startsWith (toLowerCase (js ''https://other.example/x'')) (js ''https:'')"
    by (simp add: js_def toLowerCase_def lower_unit_def)
  from startsWith_http_not_special [OF disjI2, OF this]
  have s: "shouldCaptureLink demo_page (demo_dom (js ''https://other.example/x''))
      (demo_settings True ''all'') 0 = Inr True"
    by (simp add: shouldCaptureLink_def demo_facts demo_URL_other demo_URL_site) (simp add: js_def)
  have v: "get (demo_settings True ''all'') ''visualFeedback'' = JBool True"
    "get (demo_settings True ''all'') ''soundFeedback'' = JBool False"
    by (simp_all add: demo_settings_def get_def)
  show ?thesis
    by (simp add: handleLinkClick_def f s demo_facts demo_URL_other demo_valid captureLink_def
        showCaptureFeedback_def v forwardToProxlyDirect_def demo_btoa)
      (simp add: js_def)
qed

section \<open>The ancestor walk\<close>

lemma findLink_loop_None: "findLink_loop D None d = None"
  by (simp add: findLink_loop.simps [of D None d])

lemma findLink_loop_Some:
  "findLink_loop D (Some c) d =
    (if parentNode D c \<noteq> None \<and> d < maxDepth then
       (if is_anchor_tag D c then Some c else findLink_loop D (parentNode D c) (d + 1))
     else None)"
  by (simp add: findLink_loop.simps [of D "Some c" d])

lemma findLink_loop_sound:
  assumes "findLink_loop D cur d = Some a"
  shows "\<exists>c i. cur = Some c \<and> d + i < maxDepth \<and> nth_ancestor D c i = Some a
    \<and> is_anchor_tag D a \<and> parentNode D a \<noteq> None
    \<and> (\<forall>j<i. \<forall>x. nth_ancestor D c j = Some x \<longrightarrow> \<not> is_anchor_tag D x)"
  using assms
proof (induction D cur d rule: findLink_loop.induct)
  case (1 D current depth)
  from "1.prems" obtain c where c: "current = Some c"
    by (cases current) (simp_all add: findLink_loop_None)
  with "1.prems" obtain p where p: "parentNode D c = Some p" and d: "depth < maxDepth"
    by (auto simp: findLink_loop_Some split: if_splits)
  show ?case
  proof (cases "is_anchor_tag D c")
    case True
    with "1.prems" c p d have "a = c"
      by (simp add: findLink_loop_Some)
    with c p d True show ?thesis
      by simp (rule exI [of _ 0], simp)
  next
    case False
    with "1.prems" c p d have "findLink_loop D (parentNode D c) (depth + 1) = Some a"
      by (simp add: findLink_loop_Some)
    with "1.IH" [OF c _ False] p d
    obtain i where i: "depth + 1 + i < maxDepth" "nth_ancestor D p i = Some a"
      "is_anchor_tag D a" "parentNode D a \<noteq> None"
      "\<forall>j<i. \<forall>x. nth_ancestor D p j = Some x \<longrightarrow> \<not> is_anchor_tag D x"
      by auto
    have "\<forall>j<Suc i. \<forall>x. nth_ancestor D c j = Some x \<longrightarrow> \<not> is_anchor_tag D x"
    proof (intro allI impI)
      fix j x
      assume "j < Suc i" "nth_ancestor D c j = Some x"
      then show "\<not> is_anchor_tag D x"
        using False p i(5) by (cases j) auto
    qed
    with i p c show ?thesis
      by simp (rule exI [of _ "Suc i"], simp)
  qed
qed

lemma findLink_loop_complete:
  assumes "d + i < maxDepth" "nth_ancestor D c i = Some a" "is_anchor_tag D a"
    "parentNode D a \<noteq> None"
    "\<forall>j<i. \<forall>x. nth_ancestor D c j = Some x \<longrightarrow> \<not> is_anchor_tag D x"
  shows "findLink_loop D (Some c) d = Some a"
  using assms
proof (induction i arbitrary: c d)
  case 0
  then show ?case
    by (auto simp: findLink_loop_Some)
next
  case (Suc i)
  from Suc.prems(2) obtain p where p: "parentNode D c = Some p" "nth_ancestor D p i = Some a"
    by (auto split: option.splits)
  from Suc.prems(5) have c: "\<not> is_anchor_tag D c"
    by (auto dest: spec [of _ 0])
  have rest: "\<forall>j<i. \<forall>x. nth_ancestor D p j = Some x \<longrightarrow> \<not> is_anchor_tag D x"
  proof (intro allI impI)
    fix j x
    assume "j < i" "nth_ancestor D p j = Some x"
    with Suc.prems(5) p(1) show "\<not> is_anchor_tag D x"
      by (auto dest!: spec [of _ "Suc j"])
  qed
  from Suc.prems(1) have d: "d < maxDepth" "Suc d + i < maxDepth" by simp_all
  have "findLink_loop D (Some c) d = findLink_loop D (Some p) (Suc d)"
    using p(1) c d(1) by (simp add: findLink_loop_Some)
  also have "\<dots> = Some a"
    using d(2) p(2) Suc.prems(3,4) rest by (rule Suc.IH)
  finally show ?case .
qed

text \<open>
  C8. \<open>findLinkElement\<close> is a total function: its loop is justified by the depth counter
  alone, whatever the parent pointers are. It returns an anchor exactly when the nearest
  anchor on the ancestor chain is at one of the levels 0 to 4 (level 0 being the clicked
  element) and has a parent node; that anchor is the result. When none of the levels
  0 to 4 is an anchor, the result is \<open>null\<close>.
\<close>

theorem C8_findLinkElement_bounded_nearest_anchor:
  "maxDepth = 5
   \<and> (findLinkElement D element = Some a \<longleftrightarrow>
        (\<exists>i<maxDepth. nth_ancestor D element i = Some a \<and> is_anchor_tag D a
           \<and> parentNode D a \<noteq> None
           \<and> (\<forall>j<i. \<forall>x. nth_ancestor D element j = Some x \<longrightarrow> \<not> is_anchor_tag D x)))
   \<and> ((\<forall>i<maxDepth. \<forall>x. nth_ancestor D element i = Some x \<longrightarrow> \<not> is_anchor_tag D x)
        \<longrightarrow> findLinkElement D element = None)"
proof (intro conjI)
  show "maxDepth = 5" by (simp add: maxDepth_def)
  show iff: "findLinkElement D element = Some a \<longleftrightarrow>
        (\<exists>i<maxDepth. nth_ancestor D element i = Some a \<and> is_anchor_tag D a
           \<and> parentNode D a \<noteq> None
           \<and> (\<forall>j<i. \<forall>x. nth_ancestor D element j = Some x \<longrightarrow> \<not> is_anchor_tag D x))" for a
  proof
    assume "findLinkElement D element = Some a"
    then have "findLink_loop D (Some element) 0 = Some a"
      by (simp add: findLinkElement_def)
    from findLink_loop_sound [OF this] show "\<exists>i<maxDepth. nth_ancestor D element i = Some a
        \<and> is_anchor_tag D a \<and> parentNode D a \<noteq> None
        \<and> (\<forall>j<i. \<forall>x. nth_ancestor D element j = Some x \<longrightarrow> \<not> is_anchor_tag D x)"
      by auto
  next
    assume "\<exists>i<maxDepth. nth_ancestor D element i = Some a \<and> is_anchor_tag D a
        \<and> parentNode D a \<noteq> None
        \<and> (\<forall>j<i. \<forall>x. nth_ancestor D element j = Some x \<longrightarrow> \<not> is_anchor_tag D x)"
    then obtain i where "0 + i < maxDepth" "nth_ancestor D element i = Some a"
      "is_anchor_tag D a" "parentNode D a \<noteq> None"
      "\<forall>j<i. \<forall>x. nth_ancestor D element j = Some x \<longrightarrow> \<not> is_anchor_tag D x"
      by auto
    then have "findLink_loop D (Some element) 0 = Some a"
      by (rule findLink_loop_complete)
    then show "findLinkElement D element = Some a"
      by (simp add: findLinkElement_def)
  qed
  show "(\<forall>i<maxDepth. \<forall>x. nth_ancestor D element i = Some x \<longrightarrow> \<not> is_anchor_tag D x)
        \<longrightarrow> findLinkElement D element = None"
  proof
    assume none: "\<forall>i<maxDepth. \<forall>x. nth_ancestor D element i = Some x \<longrightarrow> \<not> is_anchor_tag D x"
    show "findLinkElement D element = None"
    proof (cases "findLinkElement D element")
      case None
      then show ?thesis .
    next
      case (Some b)
      with iff [of b] none show ?thesis by auto
    qed
  qed
qed

lemma chain_dom_facts:
  "parentNode (chain_dom k) n = Some (Suc n)"
  "is_anchor_tag (chain_dom k) n \<longleftrightarrow> n = k"
  by (simp_all add: chain_dom_def is_anchor_tag_def toLowerCase_def lower_unit_def js_def)

lemma chain_dom_ancestor: "nth_ancestor (chain_dom k) n i = Some (n + i)"
  by (induction i arbitrary: n) (simp_all add: chain_dom_facts)

theorem C8_findLinkElement_bounded_nearest_anchor_witness:
  "findLinkElement (chain_dom 4) 0 = Some 4 \<and> findLinkElement (chain_dom 5) 0 = None"
proof
  have "\<exists>i<maxDepth. nth_ancestor (chain_dom 4) 0 i = Some 4 \<and> is_anchor_tag (chain_dom 4) 4
      \<and> parentNode (chain_dom 4) 4 \<noteq> None
      \<and> (\<forall>j<i. \<forall>x. nth_ancestor (chain_dom 4) 0 j = Some x \<longrightarrow> \<not> is_anchor_tag (chain_dom 4) x)"
    by (rule exI [of _ 4]) (simp add: maxDepth_def chain_dom_ancestor chain_dom_facts)
  with C8_findLinkElement_bounded_nearest_anchor [of "chain_dom 4" 0 4, THEN conjunct2, THEN conjunct1]
  show "findLinkElement (chain_dom 4) 0 = Some 4" by simp
  have "\<forall>i<maxDepth. \<forall>x. nth_ancestor (chain_dom 5) 0 i = Some x \<longrightarrow> \<not> is_anchor_tag (chain_dom 5) x"
    by (simp add: maxDepth_def chain_dom_ancestor chain_dom_facts)
  with C8_findLinkElement_bounded_nearest_anchor [of "chain_dom 5" 0, THEN conjunct2, THEN conjunct2]
  show "findLinkElement (chain_dom 5) 0 = None" by simp
qed

section \<open>Settings\<close>

lemma js_or_undefined [simp]: "js_or JUndefined v = v"
  by (simp add: js_or_def)

lemma get_empty [simp]: "get Map.empty k = JUndefined"
  by (simp add: get_def)

lemma get_upd [simp]: "get (m(k \<mapsto> v)) k' = (if k' = k then v else get m k')"
  by (simp add: get_def)

lemma get_storage_set:
  "get (storage_set store items) k = (case items k of None \<Rightarrow> get store k | Some v \<Rightarrow> v)"
  by (simp add: get_def storage_set_def map_add_def split: option.split)

lemma get_storage_set_in:
  "items k \<noteq> None \<Longrightarrow> get (storage_set store items) k = get items k"
  by (auto simp: get_def storage_set_def map_add_def split: option.split)

lemma get_storage_set_out:
  "items k = None \<Longrightarrow> get (storage_set store items) k = get store k"
  by (simp add: get_def storage_set_def map_add_def)

lemma chrome_validateSettings_eq:
  "chrome_validateSettings settings =
    [''linkMode'' \<mapsto>
       (if get settings ''linkMode'' \<in> set [JStr (js ''all''), JStr (js ''alt'')]
        then get settings ''linkMode'' else JStr (js ''alt'')),
     ''visualFeedback'' \<mapsto> Boolean (get settings ''visualFeedback''),
     ''soundFeedback'' \<mapsto> Boolean (get settings ''soundFeedback''),
     ''version'' \<mapsto> JStr (js ''1.0.0'')]"
  by (rule ext) (simp add: chrome_validateSettings_def chrome_defaultSettings_def Let_def)

lemma safari_validateSettings_eq:
  "safari_validateSettings settings =
    [''linkMode'' \<mapsto>
       (if get settings ''linkMode'' \<in> set [JStr (js ''all''), JStr (js ''context'')]
        then get settings ''linkMode'' else JStr (js ''all'')),
     ''enabled'' \<mapsto> Boolean (get settings ''enabled''),
     ''visualFeedback'' \<mapsto> Boolean (get settings ''visualFeedback''),
     ''soundFeedback'' \<mapsto> Boolean (get settings ''soundFeedback''),
     ''version'' \<mapsto>
       (if truthy (get settings ''version'') then get settings ''version''
        else JStr (js ''1.0.0''))]"
  by (rule ext) (simp add: safari_validateSettings_def safari_defaultSettings_def Let_def)

lemma chrome_saveSettings_stored:
  "fst (snd (chrome_saveSettings None settings store)) =
     storage_set store (chrome_validateSettings settings)"
  "fst (snd (chrome_saveSettings (Some e) settings store)) = store"
  by (simp_all add: chrome_saveSettings_def Let_def)

lemma safari_saveSettings_cases:
  "safari_setStorage ns sync_error local_error = Inr ToSync \<Longrightarrow>
     safari_saveSettings ns sync_error local_error settings store item =
       (True, storage_set store (safari_validateSettings settings), item,
        safari_notifySettingsChange ns (safari_validateSettings settings))"
  "safari_setStorage ns sync_error local_error = Inr ToLocal \<Longrightarrow>
     safari_saveSettings ns sync_error local_error settings store item =
       (True, store, Some (safari_validateSettings settings),
        safari_notifySettingsChange ns (safari_validateSettings settings))"
  "safari_setStorage ns sync_error local_error = Inl e \<Longrightarrow>
     safari_saveSettings ns sync_error local_error settings store item = (False, store, item, [])"
  by (simp_all add: safari_saveSettings_def Let_def)

lemma safari_setStorage_simps:
  "safari_setStorage BrowserAPI None local_error = Inr ToSync"
  "safari_setStorage ChromeAPI None local_error = Inr ToSync"
  "safari_setStorage BrowserAPI (Some e) None = Inr ToLocal"
  "safari_setStorage BrowserAPI (Some e) (Some e') = Inl e'"
  "safari_setStorage ChromeAPI (Some e) local_error = Inl e"
  "safari_setStorage NoAPI sync_error None = Inr ToLocal"
  "safari_setStorage NoAPI sync_error (Some e') = Inl e'"
  by (simp_all add: safari_setStorage_def)

lemma background_loadSettings_default:
  "fst (background_loadSettings (Inr Map.empty) this_settings) =
      [''linkMode'' \<mapsto> JStr (js ''all''), ''enabled'' \<mapsto> JBool True,
       ''visualFeedback'' \<mapsto> JBool True, ''soundFeedback'' \<mapsto> JBool False,
       ''version'' \<mapsto> JStr (js ''1.0.0'')]"
  "fst (background_loadSettings (Inl error) this_settings) =
      [''linkMode'' \<mapsto> JStr (js ''all''), ''enabled'' \<mapsto> JBool True,
       ''visualFeedback'' \<mapsto> JBool True, ''soundFeedback'' \<mapsto> JBool False,
       ''version'' \<mapsto> JStr (js ''1.0.0'')]"
  by (simp_all add: background_loadSettings_def Let_def)

lemma safari_loadSettings_empty:
  "safari_loadSettings BrowserAPI (Inr Map.empty) local =
      [''linkMode'' \<mapsto> JStr (js ''all''), ''enabled'' \<mapsto> JBool True,
       ''visualFeedback'' \<mapsto> JBool True, ''soundFeedback'' \<mapsto> JBool False,
       ''version'' \<mapsto> JStr (js ''1.0.0'')]"
  "safari_loadSettings ChromeAPI (Inr Map.empty) local =
      [''linkMode'' \<mapsto> JStr (js ''all''), ''enabled'' \<mapsto> JBool True,
       ''visualFeedback'' \<mapsto> JBool True, ''soundFeedback'' \<mapsto> JBool False,
       ''version'' \<mapsto> JStr (js ''1.0.0'')]"
  "safari_loadSettings NoAPI sync (Inr Map.empty) =
      [''linkMode'' \<mapsto> JStr (js ''all''), ''enabled'' \<mapsto> JBool True,
       ''visualFeedback'' \<mapsto> JBool True, ''soundFeedback'' \<mapsto> JBool False,
       ''version'' \<mapsto> JStr (js ''1.0.0'')]"
  by (simp_all add: safari_loadSettings_def safari_getStorage_def safari_defaultSettings_def)

lemma safari_loadSettings_unreadable:
  "safari_loadSettings ChromeAPI (Inl error) local =
      [''linkMode'' \<mapsto> JStr (js ''all''), ''enabled'' \<mapsto> JBool True,
       ''visualFeedback'' \<mapsto> JBool True, ''soundFeedback'' \<mapsto> JBool False,
       ''version'' \<mapsto> JStr (js ''1.0.0'')]"
  "safari_loadSettings NoAPI sync (Inl error) =
      [''linkMode'' \<mapsto> JStr (js ''all''), ''enabled'' \<mapsto> JBool True,
       ''visualFeedback'' \<mapsto> JBool True, ''soundFeedback'' \<mapsto> JBool False,
       ''version'' \<mapsto> JStr (js ''1.0.0'')]"
  "safari_loadSettings BrowserAPI (Inl error) (Inl local_error) =
      [''linkMode'' \<mapsto> JStr (js ''all''), ''enabled'' \<mapsto> JBool True,
       ''visualFeedback'' \<mapsto> JBool True, ''soundFeedback'' \<mapsto> JBool False,
       ''version'' \<mapsto> JStr (js ''1.0.0'')]"
  "safari_loadSettings BrowserAPI (Inl error) (Inr Map.empty) =
      [''linkMode'' \<mapsto> JStr (js ''all''), ''enabled'' \<mapsto> JBool True,
       ''visualFeedback'' \<mapsto> JBool True, ''soundFeedback'' \<mapsto> JBool False,
       ''version'' \<mapsto> JStr (js ''1.0.0'')]"
  "safari_loadSettings BrowserAPI (Inl error) (Inr fallback) =
      [''linkMode'' \<mapsto> JStr (js ''all''), ''enabled'' \<mapsto> JBool True,
       ''visualFeedback'' \<mapsto> JBool True, ''soundFeedback'' \<mapsto> JBool False,
       ''version'' \<mapsto> JStr (js ''1.0.0'')] ++ fallback"
  by (simp_all add: safari_loadSettings_def safari_getStorage_def safari_defaultSettings_def)

lemma chrome_loadSettings_default:
  "chrome_loadSettings (Inr Map.empty) =
      [''linkMode'' \<mapsto> JStr (js ''alt''), ''visualFeedback'' \<mapsto> JBool True,
       ''soundFeedback'' \<mapsto> JBool False, ''version'' \<mapsto> JStr (js ''1.0.0'')]"
  "chrome_loadSettings (Inl error) =
      [''linkMode'' \<mapsto> JStr (js ''alt''), ''visualFeedback'' \<mapsto> JBool True,
       ''soundFeedback'' \<mapsto> JBool False, ''version'' \<mapsto> JStr (js ''1.0.0'')]"
  by (simp_all add: chrome_loadSettings_def chrome_defaultSettings_def)

lemma content_loadSettings_default:
  "content_loadSettings (Inr Map.empty) (Inl bgError) =
      [''linkMode'' \<mapsto> JStr (js ''all''), ''enabled'' \<mapsto> JBool True,
       ''visualFeedback'' \<mapsto> JBool True, ''soundFeedback'' \<mapsto> JBool False]"
  "content_loadSettings (Inr Map.empty) (Inr None) =
      [''linkMode'' \<mapsto> JStr (js ''all''), ''enabled'' \<mapsto> JBool True,
       ''visualFeedback'' \<mapsto> JBool True, ''soundFeedback'' \<mapsto> JBool False]"
  "content_loadSettings (Inl error) background =
      [''linkMode'' \<mapsto> JStr (js ''all''), ''enabled'' \<mapsto> JBool True,
       ''visualFeedback'' \<mapsto> JBool True, ''soundFeedback'' \<mapsto> JBool False]"
  "content_loadSettings (Inr Map.empty)
      (Inr (Some [''linkMode'' \<mapsto> JStr (js ''all''), ''enabled'' \<mapsto> JBool True,
       ''visualFeedback'' \<mapsto> JBool True, ''soundFeedback'' \<mapsto> JBool False,
       ''version'' \<mapsto> JStr (js ''1.0.0'')])) =
      [''linkMode'' \<mapsto> JStr (js ''all''), ''enabled'' \<mapsto> JBool True,
       ''visualFeedback'' \<mapsto> JBool True, ''soundFeedback'' \<mapsto> JBool False]"
  by (simp_all add: content_loadSettings_def Let_def)

text \<open>
  C5, as the code has it. When the storage area is empty or the read fails, the background
  scripts' \<open>loadSettings\<close> yields exactly the record \<open>{linkMode:'all', enabled:true,
  visualFeedback:true, soundFeedback:false, version:'1.0.0'}\<close>, none of whose fields is
  undefined. So does the Safari \<open>SettingsManager\<close> on an empty store, whichever storage
  it reads, and on a failed read, with one exception: under the \<open>browser\<close> namespace a
  failed read of the synchronized area falls back to the \<open>localStorage\<close> item, and the
  result is that record overlaid with the item (the record itself when the item is empty
  or cannot be read either). The Chrome \<open>SettingsManager\<close> yields its own default, with
  \<open>linkMode\<close> \<open>'alt'\<close> and no \<open>enabled\<close> field, and the content script yields the four
  fields without \<open>version\<close>.
\<close>

theorem C5_defaults_on_empty_or_unreadable_store:
  "(let documented =
      [''linkMode'' \<mapsto> JStr (js ''all''), ''enabled'' \<mapsto> JBool True,
       ''visualFeedback'' \<mapsto> JBool True, ''soundFeedback'' \<mapsto> JBool False,
       ''version'' \<mapsto> JStr (js ''1.0.0'')];
        chrome_default =
      [''linkMode'' \<mapsto> JStr (js ''alt''), ''visualFeedback'' \<mapsto> JBool True,
       ''soundFeedback'' \<mapsto> JBool False, ''version'' \<mapsto> JStr (js ''1.0.0'')];
        content_default =
      [''linkMode'' \<mapsto> JStr (js ''all''), ''enabled'' \<mapsto> JBool True,
       ''visualFeedback'' \<mapsto> JBool True, ''soundFeedback'' \<mapsto> JBool False]
    in fst (background_loadSettings (Inr Map.empty) this_settings) = documented
     \<and> fst (background_loadSettings (Inl error) this_settings) = documented
     \<and> safari_loadSettings BrowserAPI (Inr Map.empty) local = documented
     \<and> safari_loadSettings ChromeAPI (Inr Map.empty) local = documented
     \<and> safari_loadSettings NoAPI sync (Inr Map.empty) = documented
     \<and> safari_loadSettings ChromeAPI (Inl error) local = documented
     \<and> safari_loadSettings NoAPI sync (Inl error) = documented
     \<and> safari_loadSettings BrowserAPI (Inl error) (Inl local_error) = documented
     \<and> safari_loadSettings BrowserAPI (Inl error) (Inr Map.empty) = documented
     \<and> safari_loadSettings BrowserAPI (Inl error) (Inr fallback) = documented ++ fallback
     \<and> get documented ''linkMode'' \<noteq> JUndefined \<and> get documented ''enabled'' \<noteq> JUndefined
     \<and> get documented ''visualFeedback'' \<noteq> JUndefined
     \<and> get documented ''soundFeedback'' \<noteq> JUndefined
     \<and> get documented ''version'' \<noteq> JUndefined
     \<and> chrome_loadSettings (Inr Map.empty) = chrome_default
     \<and> chrome_loadSettings (Inl error) = chrome_default
     \<and> content_loadSettings (Inr Map.empty) (Inl bgError) = content_default
     \<and> content_loadSettings (Inr Map.empty) (Inr None) = content_default
     \<and> content_loadSettings (Inl error) background = content_default
     \<and> content_loadSettings (Inr Map.empty) (Inr (Some documented)) = content_default)"
  unfolding Let_def
  by (intro conjI background_loadSettings_default safari_loadSettings_empty
      safari_loadSettings_unreadable chrome_loadSettings_default content_loadSettings_default)
    simp_all

theorem C5_defaults_on_empty_or_unreadable_store_witness:
  "fst (background_loadSettings (Inr Map.empty) (demo_settings True ''context'')) =
      [''linkMode'' \<mapsto> JStr (js ''all''), ''enabled'' \<mapsto> JBool True,
       ''visualFeedback'' \<mapsto> JBool True, ''soundFeedback'' \<mapsto> JBool False,
       ''version'' \<mapsto> JStr (js ''1.0.0'')]
   \<and> safari_loadSettings BrowserAPI (Inl (js ''storage unavailable''))
        (Inr [''linkMode'' \<mapsto> JStr (js ''context'')]) =
      [''linkMode'' \<mapsto> JStr (js ''context''), ''enabled'' \<mapsto> JBool True,
       ''visualFeedback'' \<mapsto> JBool True, ''soundFeedback'' \<mapsto> JBool False,
       ''version'' \<mapsto> JStr (js ''1.0.0'')]
   \<and> safari_loadSettings BrowserAPI (Inl (js ''storage unavailable''))
        (Inl (js ''localStorage is not defined'')) =
      [''linkMode'' \<mapsto> JStr (js ''all''), ''enabled'' \<mapsto> JBool True,
       ''visualFeedback'' \<mapsto> JBool True, ''soundFeedback'' \<mapsto> JBool False,
       ''version'' \<mapsto> JStr (js ''1.0.0'')]"
proof -
  note c5 = C5_defaults_on_empty_or_unreadable_store
    [of "demo_settings True ''context''" "js ''storage unavailable''" "Inr Map.empty" "Inr Map.empty"
        "js ''localStorage is not defined''" "[''linkMode'' \<mapsto> JStr (js ''context'')]",
     unfolded Let_def]
  have m: "[''linkMode'' \<mapsto> JStr (js ''all''), ''enabled'' \<mapsto> JBool True,
       ''visualFeedback'' \<mapsto> JBool True, ''soundFeedback'' \<mapsto> JBool False,
       ''version'' \<mapsto> JStr (js ''1.0.0'')] ++ [''linkMode'' \<mapsto> JStr (js ''context'')] =
      [''linkMode'' \<mapsto> JStr (js ''context''), ''enabled'' \<mapsto> JBool True,
       ''visualFeedback'' \<mapsto> JBool True, ''soundFeedback'' \<mapsto> JBool False,
       ''version'' \<mapsto> JStr (js ''1.0.0'')]"
    by (rule ext) simp
  from c5 show ?thesis
    by (simp only: m simp_thms)
qed

theorem C5_chrome_default_counterexample:
  "chrome_loadSettings (Inr Map.empty) \<noteq>
      [''linkMode'' \<mapsto> JStr (js ''all''), ''enabled'' \<mapsto> JBool True,
       ''visualFeedback'' \<mapsto> JBool True, ''soundFeedback'' \<mapsto> JBool False,
       ''version'' \<mapsto> JStr (js ''1.0.0'')]
   \<and> get (chrome_loadSettings (Inr Map.empty)) ''linkMode'' = JStr (js ''alt'')
   \<and> get (chrome_loadSettings (Inr Map.empty)) ''enabled'' = JUndefined"
proof (intro conjI)
  show e: "get (chrome_loadSettings (Inr Map.empty)) ''enabled'' = JUndefined"
    by (simp add: chrome_loadSettings_def chrome_defaultSettings_def)
  show "get (chrome_loadSettings (Inr Map.empty)) ''linkMode'' = JStr (js ''alt'')"
    by (simp add: chrome_loadSettings_def chrome_defaultSettings_def)
  show "chrome_loadSettings (Inr Map.empty) \<noteq>
      [''linkMode'' \<mapsto> JStr (js ''all''), ''enabled'' \<mapsto> JBool True,
       ''visualFeedback'' \<mapsto> JBool True, ''soundFeedback'' \<mapsto> JBool False,
       ''version'' \<mapsto> JStr (js ''1.0.0'')]"
  proof
    assume "chrome_loadSettings (Inr Map.empty) =
      [''linkMode'' \<mapsto> JStr (js ''all''), ''enabled'' \<mapsto> JBool True,
       ''visualFeedback'' \<mapsto> JBool True, ''soundFeedback'' \<mapsto> JBool False,
       ''version'' \<mapsto> JStr (js ''1.0.0'')]"
    then have "get (chrome_loadSettings (Inr Map.empty)) ''enabled'' = JBool True"
      by simp
    with e show False by simp
  qed
qed

lemma content_loadSettings_no_version:
  "get (content_loadSettings (Inr Map.empty) (Inr None)) ''version'' = JUndefined"
  by (simp add: content_loadSettings_def Let_def)

lemma bogus_settings_get:
  "get bogus_settings ''linkMode'' = JStr (js ''bogus'')"
  "get bogus_settings ''enabled'' = JBool False"
  "get bogus_settings ''visualFeedback'' = JBool False"
  "get bogus_settings ''soundFeedback'' = JBool True"
  "get bogus_settings ''version'' = JStr (js ''2.0.0'')"
  by (simp_all add: bogus_settings_def)

lemma bogus_not_recognised:
  "JStr (js ''bogus'') \<notin> set [JStr (js ''all''), JStr (js ''context'')]"
  "JStr (js ''bogus'') \<notin> set [JStr (js ''all''), JStr (js ''alt'')]"
  by (simp_all add: js_def)

lemma demo_background_get:
  "get (sync_storage demo_background) ''enabled'' = JBool True"
  "get (bg_settings demo_background) ''enabled'' = JBool True"
  by (simp_all add: demo_background_def demo_settings_def)

text \<open>
  C9. \<open>validateSettings\<close> of the Chrome settings manager returns an object with exactly
  the keys \<open>linkMode\<close>, \<open>visualFeedback\<close>, \<open>soundFeedback\<close> and \<open>version\<close>, whatever the
  input holds. An \<open>enabled\<close> field of the input is dropped, so \<open>saveSettings\<close> leaves the
  stored \<open>enabled\<close> as it was, whether the write succeeds or fails.
\<close>

theorem C9_chrome_validate_drops_enabled:
  "dom (chrome_validateSettings settings) =
      {''linkMode'', ''visualFeedback'', ''soundFeedback'', ''version''}
   \<and> chrome_validateSettings settings ''enabled'' = None
   \<and> fst (snd (chrome_saveSettings write_error settings store)) ''enabled'' = store ''enabled''"
proof (intro conjI)
  show "dom (chrome_validateSettings settings) =
      {''linkMode'', ''visualFeedback'', ''soundFeedback'', ''version''}"
    unfolding chrome_validateSettings_eq by (simp add: insert_commute)
  show n: "chrome_validateSettings settings ''enabled'' = None"
    unfolding chrome_validateSettings_eq by simp
  show "fst (snd (chrome_saveSettings write_error settings store)) ''enabled'' = store ''enabled''"
  proof (cases write_error)
    case None
    then show ?thesis
      by (simp add: chrome_saveSettings_stored storage_set_def map_add_def n)
  next
    case (Some e)
    then show ?thesis
      by (simp add: chrome_saveSettings_stored)
  qed
qed

theorem C9_chrome_validate_drops_enabled_witness:
  "get bogus_settings ''enabled'' = JBool False
   \<and> chrome_validateSettings bogus_settings ''enabled'' = None
   \<and> get (fst (snd (chrome_saveSettings None bogus_settings (sync_storage demo_background))))
        ''enabled'' = JBool True"
  using C9_chrome_validate_drops_enabled [of bogus_settings None "sync_storage demo_background"]
  by (simp add: get_def bogus_settings_def demo_background_def)

text \<open>
  C6, as the code has it. Saving a record whose \<open>linkMode\<close> the manager does not
  recognise stores the manager's default \<open>linkMode\<close>. The Safari manager stores
  \<open>Boolean(x)\<close> of \<open>enabled\<close>, \<open>visualFeedback\<close> and \<open>soundFeedback\<close>, which is the
  field itself when it is a boolean, and the \<open>version\<close> of the input when it is truthy;
  it writes the record to the synchronized area or, where that is not to be had, as the
  \<open>localStorage\<close> item, and when neither write succeeds nothing is stored. The Chrome
  manager stores \<open>Boolean(x)\<close> of the two feedback fields, always stores version
  \<open>'1.0.0'\<close> and leaves the stored \<open>enabled\<close> as it was.
\<close>

theorem C6_invalid_linkMode_falls_back_to_default:
  "(let validated = safari_validateSettings settings;
        saved = safari_saveSettings ns sync_error local_error settings store item
    in (get settings ''linkMode'' \<notin> set [JStr (js ''all''), JStr (js ''context'')] \<longrightarrow>
          get validated ''linkMode'' = JStr (js ''all''))
     \<and> (\<forall>b. get settings ''enabled'' = JBool b \<longrightarrow> get validated ''enabled'' = JBool b)
     \<and> (\<forall>b. get settings ''visualFeedback'' = JBool b \<longrightarrow>
          get validated ''visualFeedback'' = JBool b)
     \<and> (\<forall>b. get settings ''soundFeedback'' = JBool b \<longrightarrow>
          get validated ''soundFeedback'' = JBool b)
     \<and> get validated ''enabled'' = Boolean (get settings ''enabled'')
     \<and> get validated ''visualFeedback'' = Boolean (get settings ''visualFeedback'')
     \<and> get validated ''soundFeedback'' = Boolean (get settings ''soundFeedback'')
     \<and> (truthy (get settings ''version'') \<longrightarrow>
          get validated ''version'' = get settings ''version'')
     \<and> (safari_setStorage ns sync_error local_error = Inr ToSync \<longrightarrow>
          fst saved \<and> fst (snd (snd saved)) = item
          \<and> (\<forall>k \<in> {''linkMode'', ''enabled'', ''visualFeedback'', ''soundFeedback'', ''version''}.
                get (fst (snd saved)) k = get validated k))
     \<and> (safari_setStorage ns sync_error local_error = Inr ToLocal \<longrightarrow>
          fst saved \<and> fst (snd saved) = store \<and> fst (snd (snd saved)) = Some validated)
     \<and> (\<forall>e. safari_setStorage ns sync_error local_error = Inl e \<longrightarrow>
          saved = (False, store, item, [])))
   \<and> (let stored = fst (snd (chrome_saveSettings None settings store))
      in (get settings ''linkMode'' \<notin> set [JStr (js ''all''), JStr (js ''alt'')] \<longrightarrow>
            get stored ''linkMode'' = JStr (js ''alt''))
       \<and> (\<forall>b. get settings ''visualFeedback'' = JBool b \<longrightarrow>
            get stored ''visualFeedback'' = JBool b)
       \<and> (\<forall>b. get settings ''soundFeedback'' = JBool b \<longrightarrow>
            get stored ''soundFeedback'' = JBool b)
       \<and> get stored ''visualFeedback'' = Boolean (get settings ''visualFeedback'')
       \<and> get stored ''soundFeedback'' = Boolean (get settings ''soundFeedback'')
       \<and> get stored ''version'' = JStr (js ''1.0.0'')
       \<and> get stored ''enabled'' = get store ''enabled'')"
proof (rule conjI)
  have v: "get (safari_validateSettings settings) ''linkMode'' =
        (if get settings ''linkMode'' \<in> set [JStr (js ''all''), JStr (js ''context'')]
         then get settings ''linkMode'' else JStr (js ''all''))"
    "get (safari_validateSettings settings) ''enabled'' = Boolean (get settings ''enabled'')"
    "get (safari_validateSettings settings) ''visualFeedback'' =
       Boolean (get settings ''visualFeedback'')"
    "get (safari_validateSettings settings) ''soundFeedback'' =
       Boolean (get settings ''soundFeedback'')"
    "get (safari_validateSettings settings) ''version'' =
       (if truthy (get settings ''version'') then get settings ''version''
        else JStr (js ''1.0.0''))"
    unfolding safari_validateSettings_eq by simp_all
  have d: "safari_validateSettings settings k \<noteq> None"
    if "k \<in> {''linkMode'', ''enabled'', ''visualFeedback'', ''soundFeedback'', ''version''}" for k
    using that unfolding safari_validateSettings_eq by auto
  have s: "get (storage_set store (safari_validateSettings settings)) k =
      get (safari_validateSettings settings) k"
    if "k \<in> {''linkMode'', ''enabled'', ''visualFeedback'', ''soundFeedback'', ''version''}" for k
    using d [OF that] by (rule get_storage_set_in)
  have fields:
    "(get settings ''linkMode'' \<notin> set [JStr (js ''all''), JStr (js ''context'')] \<longrightarrow>
          get (safari_validateSettings settings) ''linkMode'' = JStr (js ''all''))"
    "(\<forall>b. get settings ''enabled'' = JBool b \<longrightarrow>
          get (safari_validateSettings settings) ''enabled'' = JBool b)"
    "(\<forall>b. get settings ''visualFeedback'' = JBool b \<longrightarrow>
          get (safari_validateSettings settings) ''visualFeedback'' = JBool b)"
    "(\<forall>b. get settings ''soundFeedback'' = JBool b \<longrightarrow>
          get (safari_validateSettings settings) ''soundFeedback'' = JBool b)"
    "(truthy (get settings ''version'') \<longrightarrow>
          get (safari_validateSettings settings) ''version'' = get settings ''version'')"
    by (simp_all add: v Boolean_def)
  have sync: "safari_setStorage ns sync_error local_error = Inr ToSync \<longrightarrow>
      fst (safari_saveSettings ns sync_error local_error settings store item)
      \<and> fst (snd (snd (safari_saveSettings ns sync_error local_error settings store item))) = item
      \<and> (\<forall>k \<in> {''linkMode'', ''enabled'', ''visualFeedback'', ''soundFeedback'', ''version''}.
            get (fst (snd (safari_saveSettings ns sync_error local_error settings store item))) k
            = get (safari_validateSettings settings) k)"
    using s by (simp add: safari_saveSettings_cases(1))
  have loc: "safari_setStorage ns sync_error local_error = Inr ToLocal \<longrightarrow>
      fst (safari_saveSettings ns sync_error local_error settings store item)
      \<and> fst (snd (safari_saveSettings ns sync_error local_error settings store item)) = store
      \<and> fst (snd (snd (safari_saveSettings ns sync_error local_error settings store item)))
          = Some (safari_validateSettings settings)"
    by (simp add: safari_saveSettings_cases(2))
  have fail: "\<forall>e. safari_setStorage ns sync_error local_error = Inl e \<longrightarrow>
      safari_saveSettings ns sync_error local_error settings store item = (False, store, item, [])"
    by (simp add: safari_saveSettings_cases(3))
  show "let validated = safari_validateSettings settings;
        saved = safari_saveSettings ns sync_error local_error settings store item
    in (get settings ''linkMode'' \<notin> set [JStr (js ''all''), JStr (js ''context'')] \<longrightarrow>
          get validated ''linkMode'' = JStr (js ''all''))
     \<and> (\<forall>b. get settings ''enabled'' = JBool b \<longrightarrow> get validated ''enabled'' = JBool b)
     \<and> (\<forall>b. get settings ''visualFeedback'' = JBool b \<longrightarrow>
          get validated ''visualFeedback'' = JBool b)
     \<and> (\<forall>b. get settings ''soundFeedback'' = JBool b \<longrightarrow>
          get validated ''soundFeedback'' = JBool b)
     \<and> get validated ''enabled'' = Boolean (get settings ''enabled'')
     \<and> get validated ''visualFeedback'' = Boolean (get settings ''visualFeedback'')
     \<and> get validated ''soundFeedback'' = Boolean (get settings ''soundFeedback'')
     \<and> (truthy (get settings ''version'') \<longrightarrow>
          get validated ''version'' = get settings ''version'')
     \<and> (safari_setStorage ns sync_error local_error = Inr ToSync \<longrightarrow>
          fst saved \<and> fst (snd (snd saved)) = item
          \<and> (\<forall>k \<in> {''linkMode'', ''enabled'', ''visualFeedback'', ''soundFeedback'', ''version''}.
                get (fst (snd saved)) k = get validated k))
     \<and> (safari_setStorage ns sync_error local_error = Inr ToLocal \<longrightarrow>
          fst saved \<and> fst (snd saved) = store \<and> fst (snd (snd saved)) = Some validated)
     \<and> (\<forall>e. safari_setStorage ns sync_error local_error = Inl e \<longrightarrow>
          saved = (False, store, item, []))"
    unfolding Let_def
    by (intro conjI) (rule fields v(2-4) sync loc fail)+
next
  have c: "get (chrome_validateSettings settings) ''linkMode'' =
        (if get settings ''linkMode'' \<in> set [JStr (js ''all''), JStr (js ''alt'')]
         then get settings ''linkMode'' else JStr (js ''alt''))"
    "get (chrome_validateSettings settings) ''visualFeedback'' =
       Boolean (get settings ''visualFeedback'')"
    "get (chrome_validateSettings settings) ''soundFeedback'' =
       Boolean (get settings ''soundFeedback'')"
    "get (chrome_validateSettings settings) ''version'' = JStr (js ''1.0.0'')"
    unfolding chrome_validateSettings_eq by simp_all
  have k: "chrome_validateSettings settings ''linkMode'' \<noteq> None"
    "chrome_validateSettings settings ''visualFeedback'' \<noteq> None"
    "chrome_validateSettings settings ''soundFeedback'' \<noteq> None"
    "chrome_validateSettings settings ''version'' \<noteq> None"
    "chrome_validateSettings settings ''enabled'' = None"
    unfolding chrome_validateSettings_eq by simp_all
  have st: "get (fst (snd (chrome_saveSettings None settings store))) ''linkMode'' =
      get (chrome_validateSettings settings) ''linkMode''"
    "get (fst (snd (chrome_saveSettings None settings store))) ''visualFeedback'' =
      get (chrome_validateSettings settings) ''visualFeedback''"
    "get (fst (snd (chrome_saveSettings None settings store))) ''soundFeedback'' =
      get (chrome_validateSettings settings) ''soundFeedback''"
    "get (fst (snd (chrome_saveSettings None settings store))) ''version'' =
      get (chrome_validateSettings settings) ''version''"
    "get (fst (snd (chrome_saveSettings None settings store))) ''enabled'' = get store ''enabled''"
    using k by (simp_all add: chrome_saveSettings_stored get_storage_set_in get_storage_set_out)
  show "let stored = fst (snd (chrome_saveSettings None settings store))
      in (get settings ''linkMode'' \<notin> set [JStr (js ''all''), JStr (js ''alt'')] \<longrightarrow>
            get stored ''linkMode'' = JStr (js ''alt''))
       \<and> (\<forall>b. get settings ''visualFeedback'' = JBool b \<longrightarrow>
            get stored ''visualFeedback'' = JBool b)
       \<and> (\<forall>b. get settings ''soundFeedback'' = JBool b \<longrightarrow>
            get stored ''soundFeedback'' = JBool b)
       \<and> get stored ''visualFeedback'' = Boolean (get settings ''visualFeedback'')
       \<and> get stored ''soundFeedback'' = Boolean (get settings ''soundFeedback'')
       \<and> get stored ''version'' = JStr (js ''1.0.0'')
       \<and> get stored ''enabled'' = get store ''enabled''"
    unfolding Let_def st c by (simp add: Boolean_def)
qed

theorem C6_invalid_linkMode_falls_back_to_default_witness:
  "(let stored = fst (snd (safari_saveSettings BrowserAPI None None bogus_settings
                             (sync_storage demo_background) None)) in
     get stored ''linkMode'' = JStr (js ''all'') \<and> get stored ''enabled'' = JBool False
     \<and> get stored ''visualFeedback'' = JBool False \<and> get stored ''soundFeedback'' = JBool True
     \<and> get stored ''version'' = JStr (js ''2.0.0''))
   \<and> get (fst (snd (chrome_saveSettings None bogus_settings (sync_storage demo_background))))
        ''linkMode'' = JStr (js ''alt'')"
proof -
  note c6 = C6_invalid_linkMode_falls_back_to_default
    [of bogus_settings BrowserAPI None None "sync_storage demo_background" None, unfolded Let_def]
  have v: "truthy (get bogus_settings ''version'')"
    by (simp add: bogus_settings_get js_def)
  have bad: "get bogus_settings ''linkMode'' \<notin> set [JStr (js ''all''), JStr (js ''context'')]"
    "get bogus_settings ''linkMode'' \<notin> set [JStr (js ''all''), JStr (js ''alt'')]"
    by (simp_all add: bogus_settings_get js_def)
  from c6 bad v show ?thesis
    by (simp add: Let_def safari_setStorage_simps bogus_settings_get Boolean_def)
qed

theorem C6_chrome_save_counterexample:
  "(let stored = fst (snd (chrome_saveSettings None bogus_settings (sync_storage demo_background))) in
     get bogus_settings ''version'' = JStr (js ''2.0.0'') \<and> get stored ''version'' = JStr (js ''1.0.0'')
     \<and> get bogus_settings ''enabled'' = JBool False \<and> get stored ''enabled'' = JBool True)"
  by (simp add: Let_def chrome_saveSettings_stored get_storage_set chrome_validateSettings_eq
      bogus_settings_get demo_background_get)

text \<open>
  C7. In the Firefox background script the case \<open>TOGGLE_EXTENSION\<close> never reads
  \<open>message.enabled\<close>: with the extension enabled, a message that carries
  \<open>enabled: true\<close> turns it off, stores \<open>{enabled: false}\<close> and answers
  \<open>{enabled: false}\<close>. The Safari background script, on the same message and state,
  answers \<open>{enabled: true}\<close>.
\<close>

theorem C7_firefox_toggle_ignores_carried_value:
  "get (bg_settings demo_background) ''enabled'' = JBool True
   \<and> fst (firefox_TOGGLE_EXTENSION None
        [''type'' \<mapsto> JStr (js ''TOGGLE_EXTENSION''), ''enabled'' \<mapsto> JBool True] demo_background)
      = [''enabled'' \<mapsto> JBool False]
   \<and> get (sync_storage (snd (firefox_TOGGLE_EXTENSION None
        [''type'' \<mapsto> JStr (js ''TOGGLE_EXTENSION''), ''enabled'' \<mapsto> JBool True] demo_background)))
        ''enabled'' = JBool False
   \<and> fst (safari_TOGGLE_EXTENSION None
        [''type'' \<mapsto> JStr (js ''TOGGLE_EXTENSION''), ''enabled'' \<mapsto> JBool True] demo_background)
      = [''enabled'' \<mapsto> JBool True]"
  by (simp add: firefox_TOGGLE_EXTENSION_def safari_TOGGLE_EXTENSION_def demo_background_get
      get_storage_set updateExtensionIcon_def Let_def)

lemma safari_TOGGLE_EXTENSION_sets_or_flips:
  "safari_TOGGLE_EXTENSION None message b = (response, b') \<Longrightarrow>
    (let newState = (if get message ''enabled'' \<noteq> JUndefined then get message ''enabled''
                     else JBool (\<not> truthy (get (bg_settings b) ''enabled'')))
     in response = [''enabled'' \<mapsto> newState]
        \<and> get (bg_settings b') ''enabled'' = newState
        \<and> get (sync_storage b') ''enabled'' = newState
        \<and> (\<forall>k. k \<noteq> ''enabled'' \<longrightarrow> get (sync_storage b') k = get (sync_storage b) k))"
  by (auto simp: safari_TOGGLE_EXTENSION_def get_storage_set updateExtensionIcon_def Let_def)

lemma firefox_TOGGLE_EXTENSION_flips:
  "firefox_TOGGLE_EXTENSION None message b = (response, b') \<Longrightarrow>
    (let newState = JBool (\<not> truthy (get (bg_settings b) ''enabled''))
     in response = [''enabled'' \<mapsto> newState]
        \<and> get (bg_settings b') ''enabled'' = newState
        \<and> get (sync_storage b') ''enabled'' = newState
        \<and> (\<forall>k. k \<noteq> ''enabled'' \<longrightarrow> get (sync_storage b') k = get (sync_storage b) k))"
  by (auto simp: firefox_TOGGLE_EXTENSION_def get_storage_set updateExtensionIcon_def Let_def)

lemma content_onStorageChanged_enabled:
  assumes "changes ''enabled'' = Some v"
  shows "get (content_onStorageChanged changes settings) ''enabled'' = v"
proof -
  have "get (storage_changed_key changes ''enabled'' settings) ''enabled'' = v"
    using assms by (simp add: storage_changed_key_def)
  then show ?thesis
    by (simp add: content_onStorageChanged_def storage_changed_key_def split: option.split)
qed

end
